theory Spec2Isabelle
  imports Main "HOL-Library.Word"
begin

section \<open>The PowerDNS statistics collector (src/powerdns.c)\<close>

text \<open>
  A shallow embedding of collectd's powerdns plugin. C strings are \<open>string\<close>s (the bytes
  before the terminating NUL), a \<open>char *\<close> that may be \<open>NULL\<close> is a \<open>string option\<close>,
  and raw memory (a buffer filled by \<open>recv\<close>) is a \<open>char list\<close> that holds its NUL bytes.
  What the functions do to the outside world (system calls, log messages, calls into the
  daemon) is returned as a list of events, in program order.
\<close>

subsection \<open>Strings of libc\<close>

definition NUL :: char where
  "NUL = CHR 0x00"

text \<open>The C string that starts at the beginning of a piece of memory.\<close>

definition c_str :: "char list \<Rightarrow> string" where
  "c_str mem = takeWhile (\<lambda>c. c \<noteq> NUL) mem"

text \<open>
  \<open>strtok_r (str, delim, &saveptr)\<close>. The string still to be scanned (\<open>str\<close> on the
  first call, \<open>*saveptr\<close> afterwards) is the first argument; the result is the token
  (\<open>None\<close> for \<open>NULL\<close>) and the new \<open>*saveptr\<close>. Leading delimiters are skipped, the
  token runs to the next delimiter, which is overwritten by NUL and stepped over.
\<close>

definition strtok_r :: "string \<Rightarrow> string \<Rightarrow> string option \<times> string" where
  "strtok_r s delim =
     (let s1 = dropWhile (\<lambda>c. c \<in> set delim) s
      in if s1 = [] then (None, [])
         else (Some (takeWhile (\<lambda>c. c \<notin> set delim) s1),
               drop 1 (dropWhile (\<lambda>c. c \<notin> set delim) s1)))"

text \<open>\<open>strchr (s, c)\<close>: the offset of the first \<open>c\<close> in \<open>s\<close>, \<open>None\<close> for \<open>NULL\<close>.\<close>

fun strchr :: "string \<Rightarrow> char \<Rightarrow> nat option" where
  "strchr [] c = None"
| "strchr (x # xs) c = (if x = c then Some 0 else map_option Suc (strchr xs c))"

text \<open>\<open>tolower\<close> in the C locale, and \<open>strcasecmp (a, b) == 0\<close>.\<close>

definition tolower :: "char \<Rightarrow> char" where
  "tolower c =
     (if 65 \<le> (of_char c :: nat) \<and> (of_char c :: nat) \<le> 90
      then char_of ((of_char c :: nat) + 32) else c)"

definition strcasecmp_eq :: "string \<Rightarrow> string \<Rightarrow> bool" where
  "strcasecmp_eq a b = (map tolower a = map tolower b)"

subsection \<open>The lookup table\<close>

record statname_lookup =
  name :: string
  type :: "string option"
  type_instance :: "string option"

definition entry :: "string \<Rightarrow> string \<Rightarrow> string option \<Rightarrow> statname_lookup" where
  "entry n t ti = \<lparr>name = n, type = Some t, type_instance = ti\<rparr>"

definition lookup_table :: "statname_lookup list" where
  "lookup_table =
   [ entry ''recursing-questions'' ''dns_question'' (Some ''recurse''),
     entry ''tcp-queries'' ''dns_question'' (Some ''tcp''),
     entry ''udp-queries'' ''dns_question'' (Some ''udp''),
     entry ''recursing-answers'' ''dns_answer'' (Some ''recurse''),
     entry ''tcp-answers'' ''dns_answer'' (Some ''tcp''),
     entry ''udp-answers'' ''dns_answer'' (Some ''udp''),
     entry ''packetcache-hit'' ''cache_result'' (Some ''packet-hit''),
     entry ''packetcache-miss'' ''cache_result'' (Some ''packet-miss''),
     entry ''packetcache-size'' ''cache_size'' (Some ''packet''),
     entry ''query-cache-hit'' ''cache_result'' (Some ''query-hit''),
     entry ''query-cache-miss'' ''cache_result'' (Some ''query-miss''),
     entry ''latency'' ''latency'' None,
     entry ''corrupt-packets'' ''io_packets'' (Some ''corrupt''),
     entry ''deferred-cache-inserts'' ''counter'' (Some ''cache-deferred_insert''),
     entry ''deferred-cache-lookup'' ''counter'' (Some ''cache-deferred_lookup''),
     entry ''qsize-a'' ''cache_size'' (Some ''answers''),
     entry ''qsize-q'' ''cache_size'' (Some ''questions''),
     entry ''servfail-packets'' ''io_packets'' (Some ''servfail''),
     entry ''timedout-packets'' ''io_packets'' (Some ''timeout''),
     entry ''udp4-answers'' ''dns_answer'' (Some ''udp4''),
     entry ''udp4-queries'' ''dns_question'' (Some ''queries-udp4''),
     entry ''udp6-answers'' ''dns_answer'' (Some ''udp6''),
     entry ''udp6-queries'' ''dns_question'' (Some ''queries-udp6''),
     entry ''noerror-answers'' ''dns_rcode'' (Some ''NOERROR''),
     entry ''nxdomain-answers'' ''dns_rcode'' (Some ''NXDOMAIN''),
     entry ''servfail-answers'' ''dns_rcode'' (Some ''SERVFAIL''),
     entry ''sys-msec'' ''cpu'' (Some ''system''),
     entry ''user-msec'' ''cpu'' (Some ''user''),
     entry ''qa-latency'' ''latency'' None,
     entry ''cache-entries'' ''cache_size'' None,
     entry ''cache-hits'' ''cache_result'' (Some ''hit''),
     entry ''cache-misses'' ''cache_result'' (Some ''miss''),
     entry ''questions'' ''dns_qtype'' (Some ''total'') ]"

definition lookup_table_length :: int where
  "lookup_table_length = int (length lookup_table)"

subsection \<open>The daemon's side of \<open>submit\<close>\<close>

datatype ds_type = DS_TYPE_COUNTER | DS_TYPE_GAUGE

text \<open>
  A \<open>data_set_t\<close> of the daemon's plugin.h: \<open>ds\<close> is the array of data sources (here
  their types) and \<open>ds_num\<close> its length.
\<close>

record data_set =
  ds :: "ds_type list"

definition ds_num :: "data_set \<Rightarrow> int" where
  "ds_num d = int (length (ds d))"

text \<open>
  The union \<open>value_t\<close>. A gauge is a \<open>double\<close>; its type is left open (\<open>'g\<close>), since
  nothing here computes with it. A counter is an \<open>unsigned long long\<close>.
\<close>

datatype 'g value_t = Gauge 'g | Counter "64 word"

record 'g value_list =
  vl_values :: "'g value_t list"
  vl_time :: int
  vl_host :: string
  vl_plugin :: string
  vl_plugin_instance :: string
  vl_type_instance :: string

datatype 'g event =
    TableRead nat                     \<comment> \<open>\<open>lookup_table[i].type\<close> is read, after the scan\<close>
  | GetDs string                      \<comment> \<open>\<open>plugin_get_ds (type)\<close>\<close>
  | Dispatch string "'g value_list"   \<comment> \<open>\<open>plugin_dispatch_values (type, &vl)\<close>\<close>
  | LogError string
  | LogWarning string
  | LogDebug string
  | SysSocket
  | SysUnlink string
  | SysBind string
  | SysChmod string
  | SysConnect string
  | SysSend "char list"
  | SysRecv
  | SysClose

text \<open>
  What the functions take from outside this file. For \<open>submit\<close>: the daemon's
  \<open>plugin_get_ds\<close>, libc's \<open>strtod\<close> and \<open>strtoll\<close> (each gives the number and how
  many characters of the string it consumed, so \<open>endptr == value\<close> is \<open>0\<close> consumed),
  the clock, the host name, the length \<open>DATA_MAX_NAME_LEN\<close> of the name fields of a
  \<open>value_list_t\<close>, the daemon's \<open>sstrncpy\<close> (what \<open>sstrncpy (dest, src, n)\<close> leaves
  in \<open>dest\<close>), and the memory that lies behind the last entry of \<open>lookup_table\<close>, read
  as an entry. For the transport: \<open>UNIX_PATH_MAX\<close> (the size of \<open>sun_path\<close>) and the
  build's \<open>PDNS_LOCAL_SOCKPATH\<close> (\<open>LOCALSTATEDIR "/run/" PACKAGE_NAME "-powerdns"\<close>).
\<close>

record 'g host =
  plugin_get_ds :: "string \<Rightarrow> data_set option"
  strtod :: "string \<Rightarrow> 'g \<times> nat"
  strtoll :: "string \<Rightarrow> int \<times> nat"
  time_now :: int
  hostname_g :: string
  DATA_MAX_NAME_LEN :: nat
  sstrncpy :: "string \<Rightarrow> nat \<Rightarrow> string"
  past_table :: statname_lookup
  UNIX_PATH_MAX :: nat
  PDNS_LOCAL_SOCKPATH :: string

subsection \<open>\<open>submit\<close>\<close>

text \<open>
  The scan \<open>for (i = 0; i < lookup_table_length; i++) if (strcmp (...) == 0) break;\<close>
  over the entries from index \<open>i\<close> on; the result is \<open>i\<close> after the loop.
\<close>

fun scan :: "statname_lookup list \<Rightarrow> string \<Rightarrow> nat \<Rightarrow> nat" where
  "scan [] pdns_type i = i"
| "scan (e # es) pdns_type i = (if name e = pdns_type then i else scan es pdns_type (Suc i))"

text \<open>\<open>lookup_table[i]\<close>, also for the \<open>i\<close> behind the table.\<close>

definition table_at :: "'g host \<Rightarrow> nat \<Rightarrow> statname_lookup" where
  "table_at h i = (if i < length lookup_table then lookup_table ! i else past_table h)"

definition submit :: "'g host \<Rightarrow> string \<Rightarrow> string \<Rightarrow> string \<Rightarrow> 'g event list" where
  "submit h plugin_instance pdns_type value =
    (let i = scan lookup_table pdns_type 0 in
     [TableRead i] @
     (case type (table_at h i) of
        None \<Rightarrow> []
      | Some ty \<Rightarrow>
          if int i \<ge> lookup_table_length then [LogDebug ''Not found in lookup table'']
          else
            [GetDs ty] @
            (case plugin_get_ds h ty of
               None \<Rightarrow> [LogError ''cannot find type via plugin_get_ds'']
             | Some d \<Rightarrow>
                 if ds_num d \<noteq> 1 then [LogError ''can only handle one data source'']
                 else
                   (let parsed =
                          (if ds d ! 0 = DS_TYPE_GAUGE
                           then (case strtod h value of (g, consumed) \<Rightarrow>
                                   if consumed = 0 then None else Some (Gauge g))
                           else (case strtoll h value of (n, consumed) \<Rightarrow>
                                   if consumed = 0 then None else Some (Counter (word_of_int n))))
                    in case parsed of
                         None \<Rightarrow> [LogError ''Cannot convert value'']
                       | Some v \<Rightarrow>
                           [Dispatch ty
                              \<lparr> vl_values = [v],
                                vl_time = time_now h,
                                vl_host = sstrncpy h (hostname_g h) (DATA_MAX_NAME_LEN h),
                                vl_plugin = sstrncpy h ''powerdns'' (DATA_MAX_NAME_LEN h),
                                vl_plugin_instance =
                                  sstrncpy h plugin_instance (DATA_MAX_NAME_LEN h),
                                vl_type_instance =
                                  (case type_instance (table_at h i) of
                                     None \<Rightarrow> []
                                   | Some ti \<Rightarrow> sstrncpy h ti (DATA_MAX_NAME_LEN h)) \<rparr>]))))"

subsection \<open>Targets, the plugin's globals, and the operating system\<close>

datatype func_ptr = Func_read_server | Func_read_recursor

datatype socktype = SOCK_STREAM | SOCK_DGRAM | SOCK_OTHER

text \<open>
  A \<open>list_item_t\<close>. \<open>sockaddr\<close> is the \<open>sun_path\<close> of the target's address. An item of
  the registry has a command: \<open>powerdns_config_add_server\<close> appends none without.
\<close>

record list_item =
  func :: func_ptr
  item_instance :: string
  command :: string
  sockaddr :: string
  socktype :: socktype

text \<open>The file's two globals: \<open>list\<close> (\<open>None\<close> for \<open>NULL\<close>) and \<open>local_sockpath\<close>.\<close>

record globals =
  list :: "list_item list option"
  local_sockpath :: "string option"

datatype errno = ENOENT | EOTHER

text \<open>
  What one call of \<open>recv (sd, temp, sizeof (temp), 0)\<close> gives: \<open>-1\<close>, or the bytes it
  wrote to \<open>temp\<close>, its result being their number (at most \<open>sizeof (temp)\<close>, by the
  contract of \<open>recv\<close>).
\<close>

datatype recv_result = RecvError | RecvBytes "char list"

text \<open>
  The outcomes of the system calls of one invocation of a transport strategy.
  \<open>sys_unlink\<close> is the result and the \<open>errno\<close> of the first \<open>unlink\<close> (the result of
  the second is not looked at, nor is that of \<open>close\<close>). \<open>sys_recv\<close>
  lists what the successive calls of \<open>recv\<close> return; when the list is used up the next
  \<open>recv\<close> never returns, and neither does the strategy (the result \<open>None\<close>).
  \<open>alloc_ok n\<close> tells whether allocating \<open>n\<close> bytes succeeds, and \<open>junk\<close> is what
  memory holds before it is written.
\<close>

record sys =
  sys_socket :: int
  sys_unlink :: "int \<times> errno"
  sys_bind :: int
  sys_chmod :: int
  sys_connect :: int
  sys_send :: int
  sys_recv :: "recv_result list"
  alloc_ok :: "nat \<Rightarrow> bool"
  junk :: char

text \<open>
  The result of a transport strategy: the events, the returned status, and the two output
  parameters \<open>*ret_buffer\<close> (memory, or \<open>None\<close> for a \<open>NULL\<close> pointer) and
  \<open>*ret_buffer_size\<close> when the strategy wrote them.
\<close>

type_synonym 'g fetched = "'g event list \<times> int \<times> (char list option \<times> nat) option"

subsection \<open>The datagram strategy\<close>

text \<open>The block \<open>do { ... } while (0)\<close>: its events, \<open>status\<close> after it, and \<open>temp\<close>.\<close>

definition dgram_block :: "sys \<Rightarrow> list_item \<Rightarrow> string \<Rightarrow> ('g event list \<times> int \<times> char list) option" where
  "dgram_block y item path =
    (if sys_bind y \<noteq> 0 then Some ([SysBind path, LogError ''bind''], sys_bind y, [])
     else if sys_chmod y \<noteq> 0
       then Some ([SysBind path, SysChmod path, LogError ''chmod''], sys_chmod y, [])
     else if sys_connect y \<noteq> 0
       then Some ([SysBind path, SysChmod path, SysConnect (sockaddr item), LogError ''connect''],
                  sys_connect y, [])
     else if sys_send y < 0
       then Some ([SysBind path, SysChmod path, SysConnect (sockaddr item),
                   SysSend (command item), LogError ''send''], sys_send y, [])
     else (case sys_recv y of
             [] \<Rightarrow> None
           | RecvError # _ \<Rightarrow>
               Some ([SysBind path, SysChmod path, SysConnect (sockaddr item),
                      SysSend (command item), SysRecv, LogError ''recv''], - 1, [])
           | RecvBytes temp # _ \<Rightarrow>
               Some ([SysBind path, SysChmod path, SysConnect (sockaddr item),
                      SysSend (command item), SysRecv], 0, temp)))"

text \<open>
  \<open>sa_unix.sun_path\<close>, the local bind path: \<open>strncpy\<close> of \<open>local_sockpath\<close> or of
  the default, then \<open>sun_path[sizeof (sun_path) - 1] = 0\<close>.
\<close>

definition sa_unix_sun_path :: "'g host \<Rightarrow> globals \<Rightarrow> string" where
  "sa_unix_sun_path h g =
     take (UNIX_PATH_MAX h - 1)
       (case local_sockpath g of Some p \<Rightarrow> p | None \<Rightarrow> PDNS_LOCAL_SOCKPATH h)"

text \<open>
  The strategy. After the block \<open>status\<close> is \<open>0\<close> when \<open>recv\<close> succeeded (the block
  ends with \<open>status = 0\<close>), and \<open>buffer_size\<close>, \<open>memcpy\<close> and the terminating NUL
  are computed from that \<open>status\<close>.
\<close>

definition powerdns_get_data_dgram :: "'g host \<Rightarrow> globals \<Rightarrow> sys \<Rightarrow> list_item \<Rightarrow> 'g fetched option" where
  "powerdns_get_data_dgram h g y item =
    (if sys_socket y < 0 then Some ([SysSocket, LogError ''socket''], - 1, None)
     else
       (let path = sa_unix_sun_path h g
        in if fst (sys_unlink y) \<noteq> 0 \<and> snd (sys_unlink y) \<noteq> ENOENT
           then Some ([SysSocket, SysUnlink path, LogError ''unlink'', SysClose], - 1, None)
           else
             (case dgram_block y item path of
                None \<Rightarrow> None
              | Some (evs, status, temp) \<Rightarrow>
                  (let trace = [SysSocket, SysUnlink path] @ evs @ [SysClose, SysUnlink path]
                   in if status \<noteq> 0 then Some (trace, - 1, None)
                      else
                        (let buffer_size = nat (status + 1)
                         in if \<not> alloc_ok y buffer_size
                            then Some (trace @ [LogError ''malloc''], - 1, None)
                            else
                              (let buffer = replicate buffer_size (junk y);
                                   buffer = take (nat status) temp @ drop (nat status) buffer;
                                   buffer = buffer[nat status := NUL]
                               in Some (trace, 0, Some (Some buffer, buffer_size))))))))"

subsection \<open>The stream strategy\<close>

text \<open>\<open>realloc (buffer, n)\<close> that succeeds: \<open>n\<close> bytes that start with the old content.\<close>

definition realloc :: "sys \<Rightarrow> char list option \<Rightarrow> nat \<Rightarrow> char list" where
  "realloc y buffer n =
     take n ((case buffer of None \<Rightarrow> [] | Some b \<Rightarrow> b) @ replicate n (junk y))"

text \<open>\<open>memcpy (buffer + off, src, n)\<close>.\<close>

definition memcpy :: "char list \<Rightarrow> nat \<Rightarrow> char list \<Rightarrow> nat \<Rightarrow> char list" where
  "memcpy buffer off src n = take off buffer @ take n src @ drop (off + n) buffer"

text \<open>
  The loop \<open>while (42)\<close>, from the results of \<open>recv\<close> that are still to come and the
  current \<open>buffer\<close> and \<open>buffer_size\<close>: its events, \<open>status\<close>, \<open>buffer\<close> and
  \<open>buffer_size\<close> at the \<open>break\<close>.
\<close>

fun stream_loop ::
  "sys \<Rightarrow> recv_result list \<Rightarrow> char list option \<Rightarrow> nat
     \<Rightarrow> ('g event list \<times> int \<times> char list option \<times> nat) option" where
  "stream_loop y [] buffer buffer_size = None"
| "stream_loop y (RecvError # rs) buffer buffer_size =
     Some ([SysRecv, LogError ''recv''], - 1, buffer, buffer_size)"
| "stream_loop y (RecvBytes temp # rs) buffer buffer_size =
     (let status = length temp
      in if status = 0 then Some ([SysRecv], 0, buffer, buffer_size)
         else if \<not> alloc_ok y (buffer_size + status + 1)
           then Some ([SysRecv, LogError ''realloc''], - 1, buffer, buffer_size)
         else
           (let buffer_new = realloc y buffer (buffer_size + status + 1);
                buffer_new = memcpy buffer_new buffer_size temp status;
                buffer_size = buffer_size + status;
                buffer_new = buffer_new[buffer_size := NUL]
            in case stream_loop y rs (Some buffer_new) buffer_size of
                 None \<Rightarrow> None
               | Some (evs, r) \<Rightarrow> Some (SysRecv # evs, r)))"

definition powerdns_get_data_stream :: "sys \<Rightarrow> list_item \<Rightarrow> 'g fetched option" where
  "powerdns_get_data_stream y item =
    (if sys_socket y < 0 then Some ([SysSocket, LogError ''socket''], - 1, None)
     else if sys_connect y \<noteq> 0
       then Some ([SysSocket, SysConnect (sockaddr item), LogError ''connect'', SysClose], - 1, None)
     else if sys_send y < 0
       then Some ([SysSocket, SysConnect (sockaddr item), SysSend (command item @ [NUL]),
                   LogError ''send'', SysClose], - 1, None)
     else
       (case stream_loop y (sys_recv y) None 0 of
          None \<Rightarrow> None
        | Some (evs, status, buffer, buffer_size) \<Rightarrow>
            Some ([SysSocket, SysConnect (sockaddr item), SysSend (command item @ [NUL])]
                    @ evs @ [SysClose],
                  status,
                  if status < 0 then None else Some (buffer, buffer_size))))"

definition powerdns_get_data :: "'g host \<Rightarrow> globals \<Rightarrow> sys \<Rightarrow> list_item \<Rightarrow> 'g fetched option" where
  "powerdns_get_data h g y item =
    (if socktype item = SOCK_DGRAM then powerdns_get_data_dgram h g y item
     else if socktype item = SOCK_STREAM then powerdns_get_data_stream y item
     else Some ([LogError ''Unknown socket type''], - 1, None))"

subsection \<open>The reply decoders\<close>

lemma strtok_r_shorter:
  assumes "strtok_r s delim = (Some tok, rest)"
  shows "length rest < length s"
proof -
  let ?s1 = "dropWhile (\<lambda>c. c \<in> set delim) s"
  let ?s2 = "dropWhile (\<lambda>c. c \<notin> set delim) ?s1"
  from assms have ne: "?s1 \<noteq> []"
    by (auto simp: strtok_r_def Let_def split: if_splits)
  from assms have rest: "rest = drop 1 ?s2"
    by (auto simp: strtok_r_def Let_def split: if_splits)
  have a: "length rest = length ?s2 - 1" by (simp only: rest length_drop)
  have b: "length ?s2 \<le> length ?s1" by (rule length_dropWhile_le)
  have c: "length ?s1 \<le> length s" by (rule length_dropWhile_le)
  have d: "0 < length ?s1" using ne by simp
  from a b c d show ?thesis by arith
qed

lemma strtok_r_shorter_sym:
  "(Some tok, rest) = strtok_r s delim \<Longrightarrow> length rest < length s"
  by (rule strtok_r_shorter [OF sym])

text \<open>
  The loop of \<open>powerdns_read_server\<close>, from \<open>*saveptr\<close>. The function called for each
  pair is the parameter \<open>sub\<close>: \<open>powerdns_read_server\<close> passes \<open>submit\<close> with the
  item's instance, and the sequence of the calls is read off with a \<open>sub\<close> that records
  its arguments.
\<close>

function read_server_loop :: "(string \<Rightarrow> string \<Rightarrow> 'e list) \<Rightarrow> string \<Rightarrow> 'e list" where
  "read_server_loop sub saveptr =
     (case strtok_r saveptr '','' of
        (None, _) \<Rightarrow> []
      | (Some key, saveptr') \<Rightarrow>
          (case strchr key CHR ''='' of
             None \<Rightarrow> []
           | Some n \<Rightarrow>
               (let value = drop (Suc n) key;
                    key = take n key
                in if value = [] then read_server_loop sub saveptr'
                   else sub key value @ read_server_loop sub saveptr')))"
  by pat_completeness auto
termination
  by (relation "measure (\<lambda>(sub, saveptr). length saveptr)") (auto dest: strtok_r_shorter_sym)

declare read_server_loop.simps [simp del]

text \<open>
  \<open>powerdns_read_server\<close>: the events and the status. When the transport succeeds with a
  \<open>NULL\<close> buffer, the first \<open>strtok_r (NULL, ",", &saveptr)\<close> reads \<open>*saveptr\<close>, which
  is \<open>NULL\<close> too: what happens then is undefined, and the result is \<open>None\<close>.
\<close>

definition powerdns_read_server :: "'g host \<Rightarrow> globals \<Rightarrow> sys \<Rightarrow> list_item \<Rightarrow> ('g event list \<times> int) option" where
  "powerdns_read_server h g y item =
    (case powerdns_get_data h g y item of
       None \<Rightarrow> None
     | Some (evs, status, out) \<Rightarrow>
         if status \<noteq> 0 then Some (evs, - 1)
         else
           (case out of
              Some (Some buffer, buffer_size) \<Rightarrow>
                Some (evs @ read_server_loop (submit h (item_instance item)) (c_str buffer), 0)
            | _ \<Rightarrow> None))"

definition delim_keys :: string where
  "delim_keys = [CHR '' '', CHR 0x09]"

definition delim_values :: string where
  "delim_values = [CHR '' '', CHR 0x09, CHR 0x0A, CHR 0x0D]"

text \<open>The loop of \<open>powerdns_read_recursor\<close>, from \<open>*key_saveptr\<close> and \<open>*value_saveptr\<close>.\<close>

function read_recursor_loop ::
  "(string \<Rightarrow> string \<Rightarrow> 'e list) \<Rightarrow> string \<Rightarrow> string \<Rightarrow> 'e list" where
  "read_recursor_loop sub key_saveptr value_saveptr =
     (case strtok_r value_saveptr delim_values of
        (None, _) \<Rightarrow> []
      | (Some value, value_saveptr') \<Rightarrow>
          (case strtok_r key_saveptr delim_keys of
             (None, _) \<Rightarrow> []
           | (Some key, key_saveptr') \<Rightarrow>
               sub key value @ read_recursor_loop sub key_saveptr' value_saveptr'))"
  by pat_completeness auto
termination
  by (relation "measure (\<lambda>(sub, key_saveptr, value_saveptr). length value_saveptr)")
     (auto dest: strtok_r_shorter_sym)

declare read_recursor_loop.simps [simp del]

text \<open>
  The decoding of \<open>powerdns_read_recursor\<close> once the data is there: the first \<open>strtok_r\<close>
  on the copy of the command skips the verb, then the loop runs.
\<close>

definition recursor_decode :: "(string \<Rightarrow> string \<Rightarrow> 'e list) \<Rightarrow> string \<Rightarrow> string \<Rightarrow> 'e list" where
  "recursor_decode sub keys_list buffer =
     read_recursor_loop sub (snd (strtok_r keys_list delim_keys)) buffer"

text \<open>
  \<open>powerdns_read_recursor\<close>: the events and the status; \<open>strdup\<close> of the command asks
  for its length and one byte. A \<open>NULL\<close> buffer is as in \<open>powerdns_read_server\<close>.
\<close>

definition powerdns_read_recursor :: "'g host \<Rightarrow> globals \<Rightarrow> sys \<Rightarrow> list_item \<Rightarrow> ('g event list \<times> int) option" where
  "powerdns_read_recursor h g y item =
    (case powerdns_get_data h g y item of
       None \<Rightarrow> None
     | Some (evs, status, out) \<Rightarrow>
         if status \<noteq> 0 then Some (evs, - 1)
         else if \<not> alloc_ok y (length (command item) + 1)
           then Some (evs @ [LogError ''strdup''], - 1)
         else
           (case out of
              Some (Some buffer, buffer_size) \<Rightarrow>
                Some (evs @ recursor_decode (submit h (item_instance item)) (command item)
                              (c_str buffer), 0)
            | _ \<Rightarrow> None))"

subsection \<open>Configuration\<close>

datatype oconfig_value =
    OCONFIG_TYPE_STRING string
  | OCONFIG_TYPE_NUMBER
  | OCONFIG_TYPE_BOOLEAN bool

datatype oconfig_item =
  OConfigItem (ci_key: string) (ci_values: "oconfig_value list") (ci_children: "oconfig_item list")

text \<open>Whether the allocations of the configuration phase succeed.\<close>

record heap =
  strdup_ok :: "string \<Rightarrow> bool"
  malloc_ok :: bool
  llist_create_ok :: bool
  llentry_create_ok :: bool

definition SERVER_SOCKET :: string where
  "SERVER_SOCKET = ''/var/run/pdns.controlsocket''"

definition SERVER_COMMAND :: string where
  "SERVER_COMMAND = ''SHOW *''"

definition RECURSOR_SOCKET :: string where
  "RECURSOR_SOCKET = ''/var/run/pdns_recursor.controlsocket''"

definition RECURSOR_COMMAND :: string where
  "RECURSOR_COMMAND =
     ''get all-outqueries answers0-1 '' @
     ''answers100-1000 answers10-100 answers1-10 answers-slow cache-entries '' @
     ''cache-hits cache-misses chain-resends client-parse-errors '' @
     ''concurrent-queries dlg-only-drops ipv6-outqueries negcache-entries '' @
     ''noerror-answers nsset-invalidations nsspeeds-entries nxdomain-answers '' @
     ''outgoing-timeouts qa-latency questions resource-limits '' @
     ''server-parse-errors servfail-answers spoof-prevents sys-msec '' @
     ''tcp-client-overflow tcp-outqueries tcp-questions throttled-out '' @
     ''throttled-outqueries throttle-entries unauthorized-tcp unauthorized-udp '' @
     ''unexpected-packets unreachables user-msec''"

text \<open>\<open>strdup\<close>: \<open>None\<close> (\<open>NULL\<close>) when the allocation fails.\<close>

definition strdup :: "heap \<Rightarrow> string \<Rightarrow> string option" where
  "strdup m s = (if strdup_ok m s then Some s else None)"

text \<open>
  The test \<open>(ci->values_num != 1) || (ci->values[0].type != OCONFIG_TYPE_STRING)\<close>:
  the one string argument, or \<open>None\<close> where the test fails.
\<close>

definition one_string :: "oconfig_item \<Rightarrow> string option" where
  "one_string ci = (case ci_values ci of [OCONFIG_TYPE_STRING s] \<Rightarrow> Some s | _ \<Rightarrow> None)"

text \<open>\<open>powerdns_config_add_string\<close>: the events, the status and the new \<open>*dest\<close>.\<close>

definition powerdns_config_add_string ::
  "heap \<Rightarrow> string \<Rightarrow> string option \<Rightarrow> oconfig_item \<Rightarrow> 'g event list \<times> int \<times> string option" where
  "powerdns_config_add_string m nm dest ci =
    (case one_string ci of
       None \<Rightarrow> ([LogWarning (nm @ '' needs exactly one string argument'')], - 1, dest)
     | Some s \<Rightarrow>
         (case strdup m s of None \<Rightarrow> ([], - 1, None) | Some d \<Rightarrow> ([], 0, Some d)))"

text \<open>
  One round of the loop over the children of a \<open>Server\<close> or \<open>Recursor\<close> block, up
  to the test of \<open>status\<close>: the events, \<open>status\<close>, \<open>item->command\<close> and
  \<open>socket_temp\<close>.
\<close>

definition config_child ::
  "heap \<Rightarrow> oconfig_item \<Rightarrow> string option \<Rightarrow> string option
     \<Rightarrow> 'g event list \<times> int \<times> string option \<times> string option" where
  "config_child m option cmd socket_temp =
     (if strcasecmp_eq ''Command'' (ci_key option)
      then (case powerdns_config_add_string m ''Command'' cmd option of
              (evs, status, cmd') \<Rightarrow> (evs, status, cmd', socket_temp))
      else if strcasecmp_eq ''Socket'' (ci_key option)
      then (case powerdns_config_add_string m ''Socket'' socket_temp option of
              (evs, status, socket_temp') \<Rightarrow> (evs, status, cmd, socket_temp'))
      else ([LogError (''Option '' @ ci_key option @ '' not allowed here'')], - 1,
            cmd, socket_temp))"

text \<open>The loop itself; \<open>status\<close> is \<open>0\<close> when there are no children.\<close>

fun config_children ::
  "heap \<Rightarrow> oconfig_item list \<Rightarrow> string option \<Rightarrow> string option
     \<Rightarrow> 'g event list \<times> int \<times> string option \<times> string option" where
  "config_children m [] cmd socket_temp = ([], 0, cmd, socket_temp)"
| "config_children m (option # rest) cmd socket_temp =
     (let r = config_child m option cmd socket_temp
      in if fst (snd r) \<noteq> 0 then r
         else (fst r @ fst (config_children m rest (fst (snd (snd r))) (snd (snd (snd r)))),
               snd (config_children m rest (fst (snd (snd r))) (snd (snd (snd r))))))"

text \<open>
  The defaults \<open>powerdns_config_add_server\<close> sets from the block's key: \<open>func\<close>,
  \<open>command\<close>, \<open>socktype\<close> and \<open>socket_temp\<close>. With a key that is neither \<open>Server\<close>
  nor \<open>Recursor\<close> the function goes on with \<open>socket_temp\<close> uninitialised; that is the
  result \<open>None\<close> (\<open>powerdns_config\<close> never calls it so).
\<close>

definition item_defaults ::
  "heap \<Rightarrow> string \<Rightarrow> (func_ptr \<times> string option \<times> socktype \<times> string option) option" where
  "item_defaults m k =
     (if strcasecmp_eq ''Server'' k
      then Some (Func_read_server, strdup m SERVER_COMMAND, SOCK_STREAM, strdup m SERVER_SOCKET)
      else if strcasecmp_eq ''Recursor'' k
      then Some (Func_read_recursor, strdup m RECURSOR_COMMAND, SOCK_DGRAM,
                 strdup m RECURSOR_SOCKET)
      else None)"

text \<open>
  Modelled from the spec: \<open>llist_append\<close> of utils_llist.c, which is not among the
  sources. It is the registry's \<open>add\<close>; the registry iterates in insertion order, so the
  entry goes to the end.
\<close>

definition llist_append :: "'a list \<Rightarrow> 'a \<Rightarrow> 'a list" where
  "llist_append l e = l @ [e]"

text \<open>
  Modelled from the spec: \<open>llist_head\<close> of utils_llist.c, which is not among the
  sources, and the walk along \<open>e->next\<close>. It is the registry's \<open>forEach\<close>: the entries
  in insertion order, none for a registry that was never created.
\<close>

definition llist_entries :: "'a list option \<Rightarrow> 'a list" where
  "llist_entries l = (case l of None \<Rightarrow> [] | Some es \<Rightarrow> es)"

text \<open>
  The block \<open>while (status == 0) { ... break; }\<close> of \<open>powerdns_config_add_server\<close>:
  its events, \<open>status\<close> and the registry after it.
\<close>

definition register_item ::
  "heap \<Rightarrow> 'g host \<Rightarrow> func_ptr \<Rightarrow> string \<Rightarrow> socktype \<Rightarrow> string option \<Rightarrow> string option
     \<Rightarrow> list_item list \<Rightarrow> 'g event list \<times> int \<times> list_item list" where
  "register_item m h f label st cmd socket_temp lst =
     (case socket_temp of
        None \<Rightarrow> ([LogError ''socket_temp == NULL''], - 1, lst)
      | Some path \<Rightarrow>
          (case cmd of
             None \<Rightarrow> ([LogError ''item->command == NULL''], - 1, lst)
           | Some c \<Rightarrow>
               if \<not> llentry_create_ok m then ([LogError ''llentry_create failed''], - 1, lst)
               else ([], 0,
                     llist_append lst
                       \<lparr> func = f, item_instance = label, command = c,
                         sockaddr = sstrncpy h path (UNIX_PATH_MAX h), socktype = st \<rparr>)))"

text \<open>\<open>powerdns_config_add_server\<close>: the events, the status and the registry.\<close>

definition powerdns_config_add_server ::
  "heap \<Rightarrow> 'g host \<Rightarrow> oconfig_item \<Rightarrow> list_item list
     \<Rightarrow> ('g event list \<times> int \<times> list_item list) option" where
  "powerdns_config_add_server m h ci lst =
    (case one_string ci of
       None \<Rightarrow> Some ([LogWarning (ci_key ci @ '' needs exactly one string argument'')], - 1, lst)
     | Some label \<Rightarrow>
         if \<not> malloc_ok m then Some ([LogError ''malloc failed''], - 1, lst)
         else if strdup m label = None then Some ([LogError ''strdup failed''], - 1, lst)
         else
           (case item_defaults m (ci_key ci) of
              None \<Rightarrow> None
            | Some (f, cmd0, st, socket_temp0) \<Rightarrow>
                (let r = config_children m (ci_children ci) cmd0 socket_temp0
                 in if fst (snd r) \<noteq> 0 then Some (fst r, - 1, lst)
                    else
                      (let q = register_item m h f label st (fst (snd (snd r)))
                                 (snd (snd (snd r))) lst
                       in if fst (snd q) \<noteq> 0 then Some (fst r @ fst q, - 1, lst)
                          else Some (fst r @ fst q @ [LogDebug ''Add server''], 0,
                                     snd (snd q))))))"

text \<open>
  One round of the loop of \<open>powerdns_config\<close>, on the registry and \<open>local_sockpath\<close>:
  the events, whether the round returns from the function (with status \<open>1\<close>), the
  registry and \<open>local_sockpath\<close>. The test for \<open>LocalSocket\<close> is not the \<open>else\<close> of
  the test for \<open>Server\<close> and \<open>Recursor\<close>; and what is duplicated is \<open>option->key\<close>.
\<close>

definition config_option ::
  "heap \<Rightarrow> 'g host \<Rightarrow> oconfig_item \<Rightarrow> list_item list \<Rightarrow> string option
     \<Rightarrow> ('g event list \<times> bool \<times> list_item list \<times> string option) option" where
  "config_option m h option lst lsp =
     (case (if strcasecmp_eq ''Server'' (ci_key option) \<or> strcasecmp_eq ''Recursor'' (ci_key option)
            then (case powerdns_config_add_server m h option lst of
                    None \<Rightarrow> None
                  | Some (evs, status, lst') \<Rightarrow> Some (evs, lst'))
            else Some ([], lst)) of
        None \<Rightarrow> None
      | Some (evs1, lst') \<Rightarrow>
          if strcasecmp_eq ''LocalSocket'' (ci_key option)
          then (case strdup m (ci_key option) of
                  None \<Rightarrow> Some (evs1, True, lst', lsp)
                | Some temp \<Rightarrow> Some (evs1, False, lst', Some temp))
          else Some (evs1 @ [LogError (''Option '' @ ci_key option @ '' not allowed here'')],
                     False, lst', lsp))"

text \<open>The loop: the events, the status (\<open>0\<close> at its end), the registry, \<open>local_sockpath\<close>.\<close>

fun config_loop ::
  "heap \<Rightarrow> 'g host \<Rightarrow> oconfig_item list \<Rightarrow> list_item list \<Rightarrow> string option
     \<Rightarrow> ('g event list \<times> int \<times> list_item list \<times> string option) option" where
  "config_loop m h [] lst lsp = Some ([], 0, lst, lsp)"
| "config_loop m h (option # rest) lst lsp =
     (case config_option m h option lst lsp of
        None \<Rightarrow> None
      | Some (evs1, returns, lst', lsp') \<Rightarrow>
          if returns then Some (evs1, 1, lst', lsp')
          else (case config_loop m h rest lst' lsp' of
                  None \<Rightarrow> None
                | Some (evs, r) \<Rightarrow> Some (evs1 @ evs, r)))"

definition powerdns_config ::
  "heap \<Rightarrow> 'g host \<Rightarrow> oconfig_item \<Rightarrow> globals \<Rightarrow> ('g event list \<times> int \<times> globals) option" where
  "powerdns_config m h ci g =
    (if list g = None \<and> \<not> llist_create_ok m
     then Some ([LogError ''llist_create failed''], - 1, g)
     else
       (case config_loop m h (ci_children ci) (llist_entries (list g)) (local_sockpath g) of
          None \<Rightarrow> None
        | Some (evs, status, lst, lsp) \<Rightarrow>
            Some (evs, status, \<lparr> list = Some lst, local_sockpath = lsp \<rparr>)))"

subsection \<open>The read callback\<close>

definition call_func :: "'g host \<Rightarrow> globals \<Rightarrow> sys \<Rightarrow> list_item \<Rightarrow> ('g event list \<times> int) option" where
  "call_func h g y item =
    (case func item of
       Func_read_server \<Rightarrow> powerdns_read_server h g y item
     | Func_read_recursor \<Rightarrow> powerdns_read_recursor h g y item)"

text \<open>
  The loop of \<open>powerdns_read\<close> from the entry \<open>e\<close> on, the \<open>k\<close>-th of the sweep.
  \<open>world k\<close> is what the operating system does during the \<open>k\<close>-th call of the sweep.
  The result lists, for each call \<open>item->func (item)\<close> made, the item, the status the call
  returned (which the loop drops) and the events of the call.
\<close>

fun read_loop ::
  "'g host \<Rightarrow> globals \<Rightarrow> (nat \<Rightarrow> sys) \<Rightarrow> nat \<Rightarrow> list_item list
     \<Rightarrow> (list_item \<times> int \<times> 'g event list) list option" where
  "read_loop h g world k [] = Some []"
| "read_loop h g world k (item # rest) =
     (case call_func h g (world k) item of
        None \<Rightarrow> None
      | Some (evs, status) \<Rightarrow>
          (case read_loop h g world (Suc k) rest of
             None \<Rightarrow> None
           | Some calls \<Rightarrow> Some ((item, status, evs) # calls)))"

text \<open>\<open>powerdns_read\<close>: the calls it made and its own status.\<close>

definition powerdns_read ::
  "'g host \<Rightarrow> globals \<Rightarrow> (nat \<Rightarrow> sys)
     \<Rightarrow> ((list_item \<times> int \<times> 'g event list) list \<times> int) option" where
  "powerdns_read h g world =
    (case read_loop h g world 0 (llist_entries (list g)) of
       None \<Rightarrow> None
     | Some calls \<Rightarrow> Some (calls, 0))"

subsection \<open>The specification's vocabulary\<close>

text \<open>
  \<open>resolve\<close> as the specification words it: the first entry of the table whose raw name
  is the given one, as its metric kind and sub-label; nothing when there is none.
\<close>

definition resolve :: "string \<Rightarrow> (string \<times> string option) option" where
  "resolve rawName =
     (case find (\<lambda>e. name e = rawName) lookup_table of
        None \<Rightarrow> None
      | Some e \<Rightarrow> (case type e of None \<Rightarrow> None | Some t \<Rightarrow> Some (t, type_instance e)))"

text \<open>
  Splitting as the specification words it: \<open>split_on\<close> cuts a string at every delimiter,
  and \<open>tokens\<close> are the pieces that are not empty.
\<close>

fun split_on :: "string \<Rightarrow> string \<Rightarrow> string list" where
  "split_on delim [] = [[]]"
| "split_on delim (c # cs) =
     (if c \<in> set delim then [] # split_on delim cs
      else (case split_on delim cs of [] \<Rightarrow> [[c]] | f # fs \<Rightarrow> (c # f) # fs))"

definition tokens :: "string \<Rightarrow> string \<Rightarrow> string list" where
  "tokens delim s = filter (\<lambda>t. t \<noteq> []) (split_on delim s)"

text \<open>The body of the loop of \<open>powerdns_read_server\<close>, token by token.\<close>

fun server_decode :: "(string \<Rightarrow> string \<Rightarrow> 'e list) \<Rightarrow> string list \<Rightarrow> 'e list" where
  "server_decode sub [] = []"
| "server_decode sub (tok # toks) =
     (case strchr tok CHR ''='' of
        None \<Rightarrow> []
      | Some n \<Rightarrow>
          if drop (Suc n) tok = [] then server_decode sub toks
          else sub (take n tok) (drop (Suc n) tok) @ server_decode sub toks)"

text \<open>The sub that records the pair it is called with.\<close>

definition pair_of :: "string \<Rightarrow> string \<Rightarrow> (string \<times> string) list" where
  "pair_of k v = [(k, v)]"

text \<open>
  The buffer the stream strategy holds after it has appended the bytes \<open>acc\<close>: \<open>NULL\<close>
  before the first chunk, the bytes and a NUL afterwards.
\<close>

definition buffer_of :: "char list \<Rightarrow> char list option" where
  "buffer_of acc = (if acc = [] then None else Some (acc @ [NUL]))"

text \<open>
  Every allocation succeeds that the stream strategy asks for while it appends the
  chunks to the bytes \<open>acc\<close> it holds.
\<close>

fun allocs_ok :: "sys \<Rightarrow> char list \<Rightarrow> char list list \<Rightarrow> bool" where
  "allocs_ok y acc [] = True"
| "allocs_ok y acc (c # cs) =
     (alloc_ok y (length acc + length c + 1) \<and> allocs_ok y (acc @ c) cs)"

fun is_SysUnlink :: "'g event \<Rightarrow> bool" where
  "is_SysUnlink (SysUnlink p) = True"
| "is_SysUnlink _ = False"

subsection \<open>A host, targets and system behaviours to run the functions on\<close>

definition types_db :: "string \<Rightarrow> data_set option" where
  "types_db t =
     (if t \<in> set [''latency'', ''cache_size''] then Some \<lparr>ds = [DS_TYPE_GAUGE]\<rparr>
      else if t \<in> set [''dns_question'', ''dns_answer'', ''cache_result'', ''io_packets'',
                          ''counter'', ''dns_rcode'', ''cpu'', ''dns_qtype'']
      then Some \<lparr>ds = [DS_TYPE_COUNTER]\<rparr>
      else None)"

text \<open>A stand-in for \<open>strtod\<close> and \<open>strtoll\<close> that reads a run of decimal digits.\<close>

definition decimal :: "string \<Rightarrow> int \<times> nat" where
  "decimal s =
     (let digits = takeWhile (\<lambda>c. c \<in> set ''0123456789'') s
      in (foldl (\<lambda>a c. 10 * a + (of_char c - 48)) 0 digits, length digits))"

definition example_host :: "int host" where
  "example_host =
     \<lparr> plugin_get_ds = types_db, strtod = decimal, strtoll = decimal,
       time_now = 1225324800, hostname_g = ''localhost'', DATA_MAX_NAME_LEN = 64,
       sstrncpy = (\<lambda>src n. take (n - 1) src),
       past_table = \<lparr>name = ''!'', type = Some ''list'', type_instance = None\<rparr>,
       UNIX_PATH_MAX = 108, PDNS_LOCAL_SOCKPATH = ''/var/run/collectd-powerdns'' \<rparr>"

definition no_globals :: globals where
  "no_globals = \<lparr> list = None, local_sockpath = None \<rparr>"

definition example_server :: list_item where
  "example_server =
     \<lparr> func = Func_read_server, item_instance = ''ns1'', command = SERVER_COMMAND,
       sockaddr = SERVER_SOCKET, socktype = SOCK_STREAM \<rparr>"

definition example_recursor :: list_item where
  "example_recursor =
     \<lparr> func = Func_read_recursor, item_instance = ''rec1'', command = ''get questions'',
       sockaddr = RECURSOR_SOCKET, socktype = SOCK_DGRAM \<rparr>"

text \<open>Every system call succeeds, and \<open>recv\<close> returns what is listed.\<close>

definition sys_ok :: "recv_result list \<Rightarrow> sys" where
  "sys_ok rs =
     \<lparr> sys_socket = 3, sys_unlink = (- 1, ENOENT), sys_bind = 0, sys_chmod = 0,
       sys_connect = 0, sys_send = 6, sys_recv = rs, alloc_ok = (\<lambda>n. True),
       junk = CHR ''?'' \<rparr>"

text \<open>\<open>socket\<close> fails.\<close>

definition sys_no_socket :: sys where
  "sys_no_socket = (sys_ok []) \<lparr> sys_socket := - 1 \<rparr>"

text \<open>Three chunks of 10, 4090 and 1 bytes.\<close>

definition example_chunks :: "char list list" where
  "example_chunks = [replicate 10 CHR ''a'', replicate 4090 CHR ''b'', ''c'']"

text \<open>A registry of two targets, and a sweep in which the first call finds no socket.\<close>

definition two_targets :: globals where
  "two_targets = \<lparr> list = Some [example_recursor, example_server], local_sockpath = None \<rparr>"

definition failing_then_fine :: "nat \<Rightarrow> sys" where
  "failing_then_fine k =
     (if k = 0 then sys_no_socket else sys_ok [RecvBytes ''latency=17'', RecvBytes []])"

text \<open>
  A recursor target whose \<open>socktype\<close> is \<open>SOCK_STREAM\<close> (\<open>powerdns_config\<close> makes none
  such), with a command of two names.
\<close>

definition stream_recursor :: list_item where
  "stream_recursor =
     example_recursor \<lparr> command := ''get questions cache-hits'', socktype := SOCK_STREAM \<rparr>"

text \<open>
  A registry of a server and a recursor, and a sweep in which the server's peer closes
  without sending and the recursor answers.
\<close>

definition server_then_recursor :: globals where
  "server_then_recursor =
     \<lparr> list = Some [example_server, example_recursor], local_sockpath = None \<rparr>"

definition closes_then_fine :: "nat \<Rightarrow> sys" where
  "closes_then_fine k = (if k = 0 then sys_ok [RecvBytes []] else sys_ok [RecvBytes ''17''])"

text \<open>All allocations of the configuration phase succeed.\<close>

definition heap_ok :: heap where
  "heap_ok =
     \<lparr> strdup_ok = (\<lambda>s. True), malloc_ok = True, llist_create_ok = True,
       llentry_create_ok = True \<rparr>"

section \<open>Properties\<close>

subsection \<open>The scan of the lookup table\<close>

lemma scan_miss: "p \<notin> name ` set es \<Longrightarrow> scan es p i = i + length es"
  by (induction es arbitrary: i) auto

lemma scan_hit:
  "find (\<lambda>e. name e = p) es = Some e \<Longrightarrow>
     scan es p i - i < length es \<and> i \<le> scan es p i \<and> es ! (scan es p i - i) = e"
proof (induction es arbitrary: i)
  case Nil
  then show ?case by simp
next
  case (Cons a es)
  show ?case
  proof (cases "name a = p")
    case True
    with Cons.prems show ?thesis by simp
  next
    case False
    with Cons.prems have f: "find (\<lambda>e. name e = p) es = Some e" by simp
    from Cons.IH [OF f, of "Suc i"] False show ?thesis
      by (auto simp: Suc_diff_le)
  qed
qed

lemma resolve_SomeD:
  assumes "resolve p = Some (ty, ti)"
  shows "scan lookup_table p 0 < length lookup_table"
    and "type (lookup_table ! scan lookup_table p 0) = Some ty"
    and "type_instance (lookup_table ! scan lookup_table p 0) = ti"
    and "p \<in> name ` set lookup_table"
proof -
  from assms obtain e where f: "find (\<lambda>e. name e = p) lookup_table = Some e"
    and e: "type e = Some ty" "type_instance e = ti"
    by (auto simp: resolve_def split: option.splits)
  from scan_hit [OF f, of 0]
  have i: "scan lookup_table p 0 < length lookup_table"
    and at: "lookup_table ! scan lookup_table p 0 = e" by simp_all
  show "scan lookup_table p 0 < length lookup_table" by (rule i)
  show "type (lookup_table ! scan lookup_table p 0) = Some ty" by (simp only: at e)
  show "type_instance (lookup_table ! scan lookup_table p 0) = ti" by (simp only: at e)
  from f have "e \<in> set lookup_table" and "name e = p"
    by (auto simp: find_Some_iff)
  then show "p \<in> name ` set lookup_table" by blast
qed

lemma table_names_plain:
  assumes "p \<in> name ` set lookup_table"
  shows "p \<noteq> []" and "CHR '','' \<notin> set p" and "CHR ''='' \<notin> set p"
    and "set p \<inter> set delim_keys = {}"
  using assms by (auto simp: lookup_table_def entry_def delim_keys_def)

subsection \<open>Tokens and \<open>strtok_r\<close>\<close>

lemma split_on_not_Nil: "split_on d s \<noteq> []"
  by (induction s) (auto split: list.splits)

lemma split_on_append_delim:
  "c \<in> set d \<Longrightarrow> split_on d (a @ c # b) = split_on d a @ split_on d b"
proof (induction a)
  case Nil
  then show ?case by simp
next
  case (Cons x a)
  then show ?case
    using split_on_not_Nil [of d a] by (cases "split_on d a") auto
qed

lemma split_on_no_delim: "set t \<inter> set d = {} \<Longrightarrow> split_on d t = [t]"
  by (induction t) auto

lemma tokens_append_delim:
  "c \<in> set d \<Longrightarrow> tokens d (a @ c # b) = tokens d a @ tokens d b"
  by (simp add: tokens_def split_on_append_delim)

lemma tokens_no_delim: "t \<noteq> [] \<Longrightarrow> set t \<inter> set d = {} \<Longrightarrow> tokens d t = [t]"
  by (simp add: tokens_def split_on_no_delim)

lemma tokens_Nil: "tokens d [] = []"
  by (simp add: tokens_def)

lemma tokens_dropWhile: "tokens d (dropWhile (\<lambda>c. c \<in> set d) s) = tokens d s"
  by (induction s) (auto simp: tokens_def)

lemma tokens_strtok_r_None:
  assumes "strtok_r s d = (None, rest)"
  shows "tokens d s = [] \<and> rest = []"
proof -
  from assms have "dropWhile (\<lambda>c. c \<in> set d) s = []" and "rest = []"
    by (auto simp: strtok_r_def Let_def split: if_splits)
  with tokens_dropWhile [of d s] show ?thesis by (simp add: tokens_Nil)
qed

lemma strtok_r_SomeD:
  assumes "strtok_r s d = (Some tok, rest)"
  shows "\<exists>s2. dropWhile (\<lambda>c. c \<in> set d) s = tok @ s2 \<and> rest = drop 1 s2
            \<and> tok \<noteq> [] \<and> set tok \<inter> set d = {} \<and> (s2 = [] \<or> hd s2 \<in> set d)"
proof -
  define s1 where "s1 = dropWhile (\<lambda>c. c \<in> set d) s"
  define s2 where "s2 = dropWhile (\<lambda>c. c \<notin> set d) s1"
  from assms have ne: "s1 \<noteq> []"
    by (auto simp: strtok_r_def Let_def s1_def split: if_splits)
  from assms have tok: "tok = takeWhile (\<lambda>c. c \<notin> set d) s1"
    by (auto simp: strtok_r_def Let_def s1_def split: if_splits)
  from assms have rest: "rest = drop 1 s2"
    by (auto simp: strtok_r_def Let_def s1_def s2_def split: if_splits)
  have split: "s1 = tok @ s2"
    unfolding tok s2_def by (rule takeWhile_dropWhile_id [symmetric])
  have "hd s1 \<notin> set d"
    using ne hd_dropWhile [of "\<lambda>c. c \<in> set d" s] unfolding s1_def by blast
  then have tok_ne: "tok \<noteq> []"
    using ne unfolding tok by (cases s1) simp_all
  have tok_clean: "set tok \<inter> set d = {}"
  proof -
    have "x \<notin> set d" if "x \<in> set tok" for x
      using that unfolding tok by (rule set_takeWhileD [THEN conjunct2])
    then show ?thesis by blast
  qed
  have "s2 = [] \<or> hd s2 \<in> set d"
    using hd_dropWhile [of "\<lambda>c. c \<notin> set d" s1] unfolding s2_def by blast
  with split rest tok_ne tok_clean show ?thesis
    unfolding s1_def by blast
qed

lemma tokens_strtok_r_Some:
  assumes "strtok_r s d = (Some tok, rest)"
  shows "tokens d s = tok # tokens d rest"
proof -
  from strtok_r_SomeD [OF assms] obtain s2 where
    split: "dropWhile (\<lambda>c. c \<in> set d) s = tok @ s2" and rest: "rest = drop 1 s2"
    and tok_ne: "tok \<noteq> []" and tok_clean: "set tok \<inter> set d = {}"
    and s2: "s2 = [] \<or> hd s2 \<in> set d"
    by blast
  have "tokens d (tok @ s2) = tok # tokens d rest"
  proof (cases s2)
    case Nil
    with rest tok_ne tok_clean show ?thesis by (simp add: tokens_no_delim tokens_Nil)
  next
    case (Cons c r)
    with s2 have c: "c \<in> set d" by simp
    from Cons rest have "rest = r" by simp
    with tokens_append_delim [OF c, of tok r] tok_ne tok_clean Cons show ?thesis
      by (simp add: tokens_no_delim)
  qed
  with tokens_dropWhile [of d s] split show ?thesis by simp
qed

lemma strchr_None: "c \<notin> set s \<Longrightarrow> strchr s c = None"
  by (induction s) auto

lemma strchr_first: "c \<notin> set k \<Longrightarrow> strchr (k @ c # v) c = Some (length k)"
  by (induction k) auto

subsection \<open>The loops of the decoders, on tokens\<close>

lemma read_server_loop_tokens:
  "read_server_loop sub s = server_decode sub (tokens '','' s)"
proof (induction sub s rule: read_server_loop.induct)
  case (1 sub saveptr)
  show ?case
  proof (cases "strtok_r saveptr '',''")
    case (Pair tk rest)
    show ?thesis
    proof (cases tk)
      case None
      with Pair tokens_strtok_r_None [of saveptr "'',''" rest] show ?thesis
        by (simp add: read_server_loop.simps [of sub saveptr])
    next
      case (Some key)
      with Pair have st: "strtok_r saveptr '','' = (Some key, rest)" by simp
      note tk = tokens_strtok_r_Some [OF st]
      show ?thesis
      proof (cases "strchr key CHR ''=''")
        case None
        with st tk show ?thesis by (simp add: read_server_loop.simps [of sub saveptr])
      next
        case (Some n)
        with st tk "1.IH"(1) [OF st [symmetric] refl Some refl refl]
             "1.IH"(2) [OF st [symmetric] refl Some refl refl]
        show ?thesis
          by (simp add: read_server_loop.simps [of sub saveptr] Let_def)
      qed
    qed
  qed
qed

lemma read_recursor_loop_tokens:
  "read_recursor_loop sub ks vs =
     concat (map (\<lambda>(k, v). sub k v) (zip (tokens delim_keys ks) (tokens delim_values vs)))"
proof (induction sub ks vs rule: read_recursor_loop.induct)
  case (1 sub ks vs)
  show ?case
  proof (cases "strtok_r vs delim_values")
    case (Pair tv vrest)
    show ?thesis
    proof (cases tv)
      case None
      with Pair tokens_strtok_r_None [of vs delim_values vrest] show ?thesis
        by (simp add: read_recursor_loop.simps [of sub ks vs])
    next
      case (Some v)
      with Pair have sv: "strtok_r vs delim_values = (Some v, vrest)" by simp
      note tv = tokens_strtok_r_Some [OF sv]
      show ?thesis
      proof (cases "strtok_r ks delim_keys")
        case kp: (Pair tkk krest)
        show ?thesis
        proof (cases tkk)
          case None
          with kp sv tokens_strtok_r_None [of ks delim_keys krest] show ?thesis
            by (simp add: read_recursor_loop.simps [of sub ks vs])
        next
          case k: (Some k)
          with kp have sk: "strtok_r ks delim_keys = (Some k, krest)" by simp
          note tk = tokens_strtok_r_Some [OF sk]
          from "1.IH" [OF sv [symmetric] refl sk [symmetric] refl] sv sk tv tk
          show ?thesis
            by (simp add: read_recursor_loop.simps [of sub ks vs])
        qed
      qed
    qed
  qed
qed

lemma recursor_decode_tokens:
  "recursor_decode sub cmd buffer =
     concat (map (\<lambda>(k, v). sub k v)
       (zip (tl (tokens delim_keys cmd)) (tokens delim_values buffer)))"
proof (cases "strtok_r cmd delim_keys")
  case (Pair tk rest)
  have "tokens delim_keys rest = tl (tokens delim_keys cmd)"
  proof (cases tk)
    case None
    with Pair tokens_strtok_r_None [of cmd delim_keys rest] show ?thesis
      by (simp add: tokens_Nil)
  next
    case (Some verb)
    with Pair tokens_strtok_r_Some [of cmd delim_keys verb rest] show ?thesis by simp
  qed
  with Pair show ?thesis
    by (simp add: recursor_decode_def read_recursor_loop_tokens)
qed

lemma server_decode_stop:
  "strchr t CHR ''='' = None \<Longrightarrow> server_decode sub (ts1 @ t # ts2) = server_decode sub ts1"
  by (induction ts1) (auto split: option.splits)

lemma read_server_loop_pair:
  assumes "CHR '','' \<notin> set k" and "CHR ''='' \<notin> set k" and "v \<noteq> []" and "CHR '','' \<notin> set v"
  shows "read_server_loop sub (k @ ''='' @ v @ '','' @ rest) = sub k v @ read_server_loop sub rest"
proof -
  have "tokens '','' ((k @ CHR ''='' # v) @ CHR '','' # rest)
          = tokens '','' (k @ CHR ''='' # v) @ tokens '','' rest"
    by (rule tokens_append_delim) simp
  moreover have "tokens '','' (k @ CHR ''='' # v) = [k @ CHR ''='' # v]"
    using assms by (intro tokens_no_delim) auto
  ultimately have "tokens '','' (k @ ''='' @ v @ '','' @ rest)
          = (k @ CHR ''='' # v) # tokens '','' rest" by simp
  then show ?thesis
    using assms by (simp add: read_server_loop_tokens strchr_first)
qed

lemma read_recursor_loop_pair:
  assumes "k \<noteq> []" and "set k \<inter> set delim_keys = {}"
    and "v \<noteq> []" and "set v \<inter> set delim_values = {}"
  shows "read_recursor_loop sub (k @ '' '' @ keys) (v @ '' '' @ vals)
           = sub k v @ read_recursor_loop sub keys vals"
proof -
  have "tokens delim_keys (k @ CHR '' '' # keys) = tokens delim_keys k @ tokens delim_keys keys"
    by (rule tokens_append_delim) (simp add: delim_keys_def)
  moreover have "tokens delim_values (v @ CHR '' '' # vals)
                   = tokens delim_values v @ tokens delim_values vals"
    by (rule tokens_append_delim) (simp add: delim_values_def)
  ultimately show ?thesis
    using assms by (simp add: read_recursor_loop_tokens tokens_no_delim)
qed

subsection \<open>\<open>submit\<close> and the lookup table\<close>

text \<open>
  C3. A raw name that is the name of no entry of the lookup table is dropped: \<open>submit\<close>
  calls neither \<open>plugin_get_ds\<close> nor \<open>plugin_dispatch_values\<close> and logs no error,
  whatever the memory behind the table holds.
\<close>

theorem submit_unresolved_dropped:
  assumes "pdns_type \<notin> name ` set lookup_table"
  shows "(\<forall>t. GetDs t \<notin> set (submit h inst pdns_type v))
       \<and> (\<forall>t vl. Dispatch t vl \<notin> set (submit h inst pdns_type v))
       \<and> (\<forall>msg. LogError msg \<notin> set (submit h inst pdns_type v))"
  using scan_miss [OF assms, of 0]
  by (auto simp: submit_def Let_def table_at_def lookup_table_length_def split: option.splits)

theorem submit_unresolved_dropped_witness:
  "''unknown-stat-xyz'' \<notin> name ` set lookup_table
   \<and> (\<forall>t. GetDs t \<notin> set (submit example_host ''ns1'' ''unknown-stat-xyz'' ''42''))
   \<and> (\<forall>t vl. Dispatch t vl \<notin> set (submit example_host ''ns1'' ''unknown-stat-xyz'' ''42''))"
proof -
  have miss: "''unknown-stat-xyz'' \<notin> name ` set lookup_table"
    by (simp add: lookup_table_def entry_def)
  from submit_unresolved_dropped [OF miss, of example_host "''ns1''" "''42''"] miss
  show ?thesis by simp
qed

text \<open>
  C4. For the name \<open>unknown-stat-xyz\<close>, which no entry has, the scan ends with
  \<open>i = 33 = lookup_table_length\<close>, and the first thing \<open>submit\<close> does then is to read
  \<open>lookup_table[33].type\<close>, one entry behind the table.
\<close>

theorem submit_reads_behind_table:
  "hd (submit h inst ''unknown-stat-xyz'' v) = TableRead 33
   \<and> lookup_table_length = 33
   \<and> submit example_host ''ns1'' ''unknown-stat-xyz'' ''42''
       = [TableRead 33, LogDebug ''Not found in lookup table'']"
  by (simp add: submit_def lookup_table_def entry_def lookup_table_length_def Let_def
        table_at_def example_host_def)

text \<open>The same for every name that no entry has.\<close>

lemma submit_unresolved_reads_behind:
  assumes "pdns_type \<notin> name ` set lookup_table"
  shows "hd (submit h inst pdns_type v) = TableRead (length lookup_table)"
  using scan_miss [OF assms, of 0] by (simp add: submit_def Let_def)

text \<open>
  C9. A pair whose name resolves, whose metric kind the daemon knows with one data
  source, and of whose value the conversion the schema asks for consumes no character:
  \<open>submit\<close> logs an error and does not dispatch. In both decoders the loop then goes
  on with the rest of the reply as after any other pair.
\<close>

theorem submit_unparsable_dropped:
  assumes "resolve pdns_type = Some (ty, ti)"
    and "plugin_get_ds h ty = Some d"
    and "ds_num d = 1"
    and "if ds d ! 0 = DS_TYPE_GAUGE then snd (strtod h v) = 0 else snd (strtoll h v) = 0"
    and "v \<noteq> []"
  shows "submit h inst pdns_type v
           = [TableRead (scan lookup_table pdns_type 0), GetDs ty, LogError ''Cannot convert value'']
       \<and> (CHR '','' \<notin> set v \<longrightarrow>
            read_server_loop (submit h inst) (pdns_type @ ''='' @ v @ '','' @ rest)
              = submit h inst pdns_type v @ read_server_loop (submit h inst) rest)
       \<and> (set v \<inter> set delim_values = {} \<longrightarrow>
            read_recursor_loop (submit h inst) (pdns_type @ '' '' @ keys) (v @ '' '' @ vals)
              = submit h inst pdns_type v @ read_recursor_loop (submit h inst) keys vals)"
proof -
  note r = resolve_SomeD [OF assms(1)]
  note plain = table_names_plain [OF r(4)]
  have "submit h inst pdns_type v
          = [TableRead (scan lookup_table pdns_type 0), GetDs ty, LogError ''Cannot convert value'']"
    using r(1,2) assms(2,3,4)
    by (auto simp: submit_def Let_def table_at_def lookup_table_length_def
          split: prod.splits if_splits)
  moreover have "read_server_loop (submit h inst) (pdns_type @ ''='' @ v @ '','' @ rest)
                   = submit h inst pdns_type v @ read_server_loop (submit h inst) rest"
    if "CHR '','' \<notin> set v"
    using plain(2,3) assms(5) that by (rule read_server_loop_pair)
  moreover have "read_recursor_loop (submit h inst) (pdns_type @ '' '' @ keys) (v @ '' '' @ vals)
                   = submit h inst pdns_type v @ read_recursor_loop (submit h inst) keys vals"
    if "set v \<inter> set delim_values = {}"
    using plain(1,4) assms(5) that by (rule read_recursor_loop_pair)
  ultimately show ?thesis by blast
qed

theorem submit_unparsable_dropped_witness:
  "resolve ''latency'' = Some (''latency'', None)
   \<and> plugin_get_ds example_host ''latency'' = Some \<lparr>ds = [DS_TYPE_GAUGE]\<rparr>
   \<and> snd (strtod example_host ''N/A'') = 0
   \<and> CHR '','' \<notin> set ''N/A'' \<and> set ''N/A'' \<inter> set delim_values = {}
   \<and> submit example_host ''ns1'' ''latency'' ''N/A''
        = [TableRead 11, GetDs ''latency'', LogError ''Cannot convert value'']
   \<and> read_server_loop (submit example_host ''ns1'') ''latency=N/A,qsize-q=4''
        = [TableRead 11, GetDs ''latency'', LogError ''Cannot convert value'']
          @ read_server_loop (submit example_host ''ns1'') ''qsize-q=4''
   \<and> read_recursor_loop (submit example_host ''ns1'') ''latency questions'' ''N/A 5''
        = [TableRead 11, GetDs ''latency'', LogError ''Cannot convert value'']
          @ read_recursor_loop (submit example_host ''ns1'') ''questions'' ''5''"
proof -
  have a: "resolve ''latency'' = Some (''latency'', None)"
    by (simp add: resolve_def lookup_table_def entry_def)
  have b: "plugin_get_ds example_host ''latency'' = Some \<lparr>ds = [DS_TYPE_GAUGE]\<rparr>"
    by (simp add: example_host_def types_db_def)
  have c: "ds_num \<lparr>ds = [DS_TYPE_GAUGE]\<rparr> = 1"
    by (simp add: ds_num_def)
  have z: "snd (strtod example_host ''N/A'') = 0"
    by (simp add: example_host_def decimal_def)
  then have d: "if ds \<lparr>ds = [DS_TYPE_GAUGE]\<rparr> ! 0 = DS_TYPE_GAUGE
      then snd (strtod example_host ''N/A'') = 0 else snd (strtoll example_host ''N/A'') = 0"
    by simp
  have e: "''N/A'' \<noteq> []" by simp
  have i: "scan lookup_table ''latency'' 0 = 11"
    by (simp add: lookup_table_def entry_def)
  have v: "CHR '','' \<notin> set ''N/A''" "set ''N/A'' \<inter> set delim_values = {}"
    by (simp_all add: delim_values_def)
  from submit_unparsable_dropped
         [OF a b c d e, of "''ns1''" "''qsize-q=4''" "''questions''" "''5''"] a b z i v
  show ?thesis by simp
qed

subsection \<open>The decoders\<close>

text \<open>
  C7. In the reply of the authoritative server, a token without \<open>=\<close> ends the decoding:
  when the reply is \<open>p\<close>, then such a token \<open>t\<close>, then \<open>r\<close> (\<open>p\<close> empty or ending in a
  comma, \<open>r\<close> empty or starting with one), the calls of \<open>submit\<close> are those for \<open>p\<close>
  alone. The reply \<open>a=1,garbage,b=2\<close> gives the one pair \<open>(a, 1)\<close>. The status of
  \<open>powerdns_read_server\<close> is \<open>0\<close> whatever the reply holds.
\<close>

theorem token_without_equals_ends_decoding:
  assumes "p = [] \<or> last p = CHR '',''"
    and "t \<noteq> []" and "CHR '','' \<notin> set t" and "CHR ''='' \<notin> set t"
    and "r = [] \<or> hd r = CHR '',''"
  shows "read_server_loop sub (p @ t @ r) = read_server_loop sub p
       \<and> read_server_loop pair_of ''a=1,garbage,b=2'' = [(''a'', ''1'')]
       \<and> (powerdns_get_data h g y item = Some (evs, 0, Some (Some buffer, n)) \<longrightarrow>
            powerdns_read_server h g y item
              = Some (evs @ read_server_loop (submit h (item_instance item)) (c_str buffer), 0))"
proof -
  have t: "tokens '','' t = [t]"
    using assms(2,3) by (intro tokens_no_delim) auto
  have tr: "tokens '','' (t @ r) = t # tokens '','' r"
  proof (cases r)
    case Nil
    with t show ?thesis by (simp add: tokens_Nil)
  next
    case (Cons c r')
    with assms(5) have "r = CHR '','' # r'" by simp
    with tokens_append_delim [of "CHR '',''" "'',''" t r'] t show ?thesis
      by (simp add: tokens_def)
  qed
  have "tokens '','' (p @ t @ r) = tokens '','' p @ t # tokens '','' r"
  proof (cases "p = []")
    case True
    with tr show ?thesis by (simp add: tokens_Nil)
  next
    case False
    with assms(1) have "p = butlast p @ [CHR '','']"
      using append_butlast_last_id [of p] by simp
    then obtain p' where p: "p = p' @ [CHR '','']" ..
    have "tokens '','' (p' @ CHR '','' # (t @ r)) = tokens '','' p' @ tokens '','' (t @ r)"
      by (rule tokens_append_delim) simp
    moreover have "tokens '','' (p' @ CHR '','' # []) = tokens '','' p' @ tokens '','' []"
      by (rule tokens_append_delim) simp
    ultimately show ?thesis using tr p by (simp add: tokens_Nil)
  qed
  then have "read_server_loop sub (p @ t @ r) = read_server_loop sub p"
    using assms(4) by (simp add: read_server_loop_tokens server_decode_stop strchr_None)
  moreover have "read_server_loop pair_of ''a=1,garbage,b=2'' = [(''a'', ''1'')]"
    by (simp add: read_server_loop_tokens tokens_def pair_of_def)
  moreover have "powerdns_get_data h g y item = Some (evs, 0, Some (Some buffer, n)) \<longrightarrow>
      powerdns_read_server h g y item
        = Some (evs @ read_server_loop (submit h (item_instance item)) (c_str buffer), 0)"
    by (simp add: powerdns_read_server_def)
  ultimately show ?thesis by blast
qed

theorem token_without_equals_ends_decoding_witness:
  "last ''a=1,'' = CHR '','' \<and> CHR ''='' \<notin> set ''garbage'' \<and> hd '',b=2'' = CHR '',''
   \<and> read_server_loop pair_of (''a=1,'' @ ''garbage'' @ '',b=2'') = read_server_loop pair_of ''a=1,''
   \<and> powerdns_get_data example_host no_globals
         (sys_ok [RecvBytes ''a=1,garbage,b=2'', RecvBytes []]) example_server
       = Some ([SysSocket, SysConnect SERVER_SOCKET, SysSend (SERVER_COMMAND @ [NUL]),
                SysRecv, SysRecv, SysClose],
               0, Some (Some (''a=1,garbage,b=2'' @ [NUL]), 15))
   \<and> (\<exists>evs. powerdns_read_server example_host no_globals
                (sys_ok [RecvBytes ''a=1,garbage,b=2'', RecvBytes []]) example_server
              = Some (evs, 0))"
proof -
  have a: "''a=1,'' = [] \<or> last ''a=1,'' = CHR '',''" by simp
  have b: "''garbage'' \<noteq> []" by simp
  have c: "CHR '','' \<notin> set ''garbage''" by simp
  have d: "CHR ''='' \<notin> set ''garbage''" by simp
  have e: "'',b=2'' = [] \<or> hd '',b=2'' = CHR '',''" by simp
  have f: "powerdns_get_data example_host no_globals
         (sys_ok [RecvBytes ''a=1,garbage,b=2'', RecvBytes []]) example_server
       = Some ([SysSocket, SysConnect SERVER_SOCKET, SysSend (SERVER_COMMAND @ [NUL]),
                SysRecv, SysRecv, SysClose],
               0, Some (Some (''a=1,garbage,b=2'' @ [NUL]), 15))"
    by (simp add: powerdns_get_data_def powerdns_get_data_stream_def sys_ok_def
          example_server_def realloc_def memcpy_def Let_def)
  note t = token_without_equals_ends_decoding [OF a b c d e]
  from t [of pair_of, THEN conjunct1] t [THEN conjunct2, THEN conjunct2, THEN mp, OF f] f
  show ?thesis by simp
qed

text \<open>
  C8. Once the reply is there and the command is copied, \<open>powerdns_read_recursor\<close>
  returns \<open>0\<close>, and what it does after the transport is to call \<open>submit\<close> with the N-th
  token of the command after the verb and the N-th token of the reply, in that order, as
  far as both have one, and nothing else: the calls are the zip of the two token
  sequences, as many as the shorter has. The command \<open>get foo bar baz\<close> gives three pairs
  with the reply \<open>1 2 3\<close> and two with the reply \<open>1 2\<close>.
\<close>

theorem positional_decoder_pairs:
  assumes "powerdns_get_data h g y item = Some (evs, 0, Some (Some buffer, n))"
    and "alloc_ok y (length (command item) + 1)"
  shows "powerdns_read_recursor h g y item
           = Some (evs @ concat (map (\<lambda>(k, v). submit h (item_instance item) k v)
                     (zip (tl (tokens delim_keys (command item)))
                          (tokens delim_values (c_str buffer)))), 0)
   \<and> powerdns_read_recursor h g y item
       = Some (evs @ recursor_decode (submit h (item_instance item)) (command item)
                       (c_str buffer), 0)
   \<and> recursor_decode sub cmd reply
       = concat (map (\<lambda>(k, v). sub k v)
           (zip (tl (tokens delim_keys cmd)) (tokens delim_values reply)))
   \<and> recursor_decode pair_of cmd reply
       = zip (tl (tokens delim_keys cmd)) (tokens delim_values reply)
   \<and> length (recursor_decode pair_of cmd reply)
       = min (length (tokens delim_keys cmd) - 1) (length (tokens delim_values reply))
   \<and> recursor_decode pair_of ''get foo bar baz'' ''1 2 3''
       = [(''foo'', ''1''), (''bar'', ''2''), (''baz'', ''3'')]
   \<and> recursor_decode pair_of ''get foo bar baz'' ''1 2''
       = [(''foo'', ''1''), (''bar'', ''2'')]"
proof -
  have pairs: "concat (map (\<lambda>(k, v). pair_of k v) xs) = xs" for xs
    by (induction xs) (auto simp: pair_of_def)
  have a: "recursor_decode pair_of c b = zip (tl (tokens delim_keys c)) (tokens delim_values b)"
    for c b
    by (simp only: recursor_decode_tokens pairs)
  have whole: "powerdns_read_recursor h g y item
       = Some (evs @ recursor_decode (submit h (item_instance item)) (command item)
                       (c_str buffer), 0)"
    using assms by (simp add: powerdns_read_recursor_def)
  then have zipped: "powerdns_read_recursor h g y item
           = Some (evs @ concat (map (\<lambda>(k, v). submit h (item_instance item) k v)
                     (zip (tl (tokens delim_keys (command item)))
                          (tokens delim_values (c_str buffer)))), 0)"
    by (simp only: recursor_decode_tokens)
  have three: "recursor_decode pair_of ''get foo bar baz'' ''1 2 3''
          = [(''foo'', ''1''), (''bar'', ''2''), (''baz'', ''3'')]"
    by (simp add: a tokens_def delim_keys_def delim_values_def)
  have two: "recursor_decode pair_of ''get foo bar baz'' ''1 2''
          = [(''foo'', ''1''), (''bar'', ''2'')]"
    by (simp add: a tokens_def delim_keys_def delim_values_def)
  have len: "length (recursor_decode pair_of cmd reply)
          = min (length (tokens delim_keys cmd) - 1) (length (tokens delim_values reply))"
    by (simp add: a)
  from zipped whole recursor_decode_tokens [of sub cmd reply] a [of cmd reply] len three two
  show ?thesis by (intro conjI)
qed

text \<open>
  Two runs. In the first the target is a recursor as \<open>powerdns_config\<close> makes it and the
  datagram \<open>1 2 3\<close> arrives: the function returns \<open>0\<close>, and since the datagram strategy
  hands over an empty buffer there is no token to pair. In the second the target's
  \<open>socktype\<close> is \<open>SOCK_STREAM\<close>, so that the reply \<open>17 4\<close> reaches the decoder: the
  function returns \<open>0\<close> after \<open>submit\<close> for \<open>questions\<close> with \<open>17\<close> and for
  \<open>cache-hits\<close> with \<open>4\<close>.
\<close>

theorem positional_decoder_pairs_witness:
  "powerdns_get_data example_host no_globals (sys_ok [RecvBytes ''1 2 3'']) example_recursor
     = Some ([SysSocket, SysUnlink ''/var/run/collectd-powerdns'',
              SysBind ''/var/run/collectd-powerdns'', SysChmod ''/var/run/collectd-powerdns'',
              SysConnect RECURSOR_SOCKET, SysSend ''get questions'',
              SysRecv, SysClose, SysUnlink ''/var/run/collectd-powerdns''],
             0, Some (Some [NUL], 1))
   \<and> powerdns_read_recursor example_host no_globals (sys_ok [RecvBytes ''1 2 3''])
       example_recursor
     = Some ([SysSocket, SysUnlink ''/var/run/collectd-powerdns'',
              SysBind ''/var/run/collectd-powerdns'', SysChmod ''/var/run/collectd-powerdns'',
              SysConnect RECURSOR_SOCKET, SysSend ''get questions'',
              SysRecv, SysClose, SysUnlink ''/var/run/collectd-powerdns''], 0)
   \<and> powerdns_get_data example_host no_globals (sys_ok [RecvBytes ''17 4'', RecvBytes []])
       stream_recursor
     = Some ([SysSocket, SysConnect RECURSOR_SOCKET,
              SysSend (''get questions cache-hits'' @ [NUL]), SysRecv, SysRecv, SysClose],
             0, Some (Some (''17 4'' @ [NUL]), 4))
   \<and> powerdns_read_recursor example_host no_globals (sys_ok [RecvBytes ''17 4'', RecvBytes []])
       stream_recursor
     = Some ([SysSocket, SysConnect RECURSOR_SOCKET,
              SysSend (''get questions cache-hits'' @ [NUL]), SysRecv, SysRecv, SysClose]
             @ submit example_host ''rec1'' ''questions'' ''17''
             @ submit example_host ''rec1'' ''cache-hits'' ''4'', 0)"
proof -
  let ?y = "sys_ok [RecvBytes ''1 2 3'']"
  let ?z = "sys_ok [RecvBytes ''17 4'', RecvBytes []]"
  have f: "powerdns_get_data example_host no_globals ?y example_recursor
     = Some ([SysSocket, SysUnlink ''/var/run/collectd-powerdns'',
              SysBind ''/var/run/collectd-powerdns'', SysChmod ''/var/run/collectd-powerdns'',
              SysConnect RECURSOR_SOCKET, SysSend ''get questions'',
              SysRecv, SysClose, SysUnlink ''/var/run/collectd-powerdns''],
             0, Some (Some [NUL], 1))"
    by (simp add: powerdns_get_data_def powerdns_get_data_dgram_def dgram_block_def
          sa_unix_sun_path_def Let_def example_host_def no_globals_def sys_ok_def
          example_recursor_def)
  have m: "alloc_ok ?y (length (command example_recursor) + 1)"
    by (simp add: sys_ok_def)
  have none: "tokens delim_values (c_str [NUL]) = []"
    by (simp add: c_str_def tokens_def)
  have f2: "powerdns_get_data example_host no_globals ?z stream_recursor
     = Some ([SysSocket, SysConnect RECURSOR_SOCKET,
              SysSend (''get questions cache-hits'' @ [NUL]), SysRecv, SysRecv, SysClose],
             0, Some (Some (''17 4'' @ [NUL]), 4))"
    by (simp add: powerdns_get_data_def powerdns_get_data_stream_def sys_ok_def
          stream_recursor_def example_recursor_def realloc_def memcpy_def Let_def)
  have m2: "alloc_ok ?z (length (command stream_recursor) + 1)"
    by (simp add: sys_ok_def)
  have keys: "tl (tokens delim_keys (command stream_recursor)) = [''questions'', ''cache-hits'']"
    by (simp add: stream_recursor_def example_recursor_def tokens_def delim_keys_def)
  have vals: "tokens delim_values (c_str (''17 4'' @ [NUL])) = [''17'', ''4'']"
    by (simp add: c_str_def NUL_def tokens_def delim_values_def)
  have inst: "item_instance stream_recursor = ''rec1''"
    by (simp add: stream_recursor_def example_recursor_def)
  from positional_decoder_pairs [OF f m, THEN conjunct1] none
  have r1: "powerdns_read_recursor example_host no_globals ?y example_recursor
     = Some ([SysSocket, SysUnlink ''/var/run/collectd-powerdns'',
              SysBind ''/var/run/collectd-powerdns'', SysChmod ''/var/run/collectd-powerdns'',
              SysConnect RECURSOR_SOCKET, SysSend ''get questions'',
              SysRecv, SysClose, SysUnlink ''/var/run/collectd-powerdns''], 0)"
    by simp
  from positional_decoder_pairs [OF f2 m2, THEN conjunct1] keys vals inst
  have r2: "powerdns_read_recursor example_host no_globals ?z stream_recursor
     = Some ([SysSocket, SysConnect RECURSOR_SOCKET,
              SysSend (''get questions cache-hits'' @ [NUL]), SysRecv, SysRecv, SysClose]
             @ submit example_host ''rec1'' ''questions'' ''17''
             @ submit example_host ''rec1'' ''cache-hits'' ''4'', 0)"
    by simp
  from f r1 f2 r2 show ?thesis by (intro conjI)
qed

subsection \<open>The datagram strategy\<close>

lemma dgram_block_no_unlink:
  "dgram_block y item path = Some (evs, st, temp) \<Longrightarrow> filter is_SysUnlink evs = []"
  by (auto simp: dgram_block_def split: if_splits list.splits recv_result.splits)

lemma dgram_block_returns:
  "sys_recv y \<noteq> [] \<Longrightarrow> \<exists>evs st temp. dgram_block y item path = Some (evs, st, temp)"
  by (auto simp: dgram_block_def split: list.splits recv_result.splits)

text \<open>
  C1. \<open>recv\<close> returns the three bytes \<open>1 2\<close> and every call succeeds; the strategy
  returns \<open>0\<close> with a buffer of one byte, the NUL, and the size \<open>1\<close>: the bytes received
  are not in the buffer.
\<close>

theorem dgram_drops_received_bytes:
  "powerdns_get_data_dgram example_host no_globals (sys_ok [RecvBytes ''1 2'']) example_recursor
     = Some ([SysSocket, SysUnlink ''/var/run/collectd-powerdns'',
              SysBind ''/var/run/collectd-powerdns'', SysChmod ''/var/run/collectd-powerdns'',
              SysConnect ''/var/run/pdns_recursor.controlsocket'', SysSend ''get questions'',
              SysRecv, SysClose, SysUnlink ''/var/run/collectd-powerdns''],
             0, Some (Some [NUL], 1))"
  by (simp add: powerdns_get_data_dgram_def dgram_block_def sa_unix_sun_path_def Let_def
        example_host_def no_globals_def sys_ok_def example_recursor_def RECURSOR_SOCKET_def)

text \<open>
  The same for every invocation that returns \<open>0\<close>: whatever \<open>recv\<close> delivered, the
  buffer is the single NUL and the size is \<open>1\<close>.
\<close>

lemma dgram_success_buffer:
  assumes "powerdns_get_data_dgram h g y item = Some (evs, 0, out)"
  shows "out = Some (Some [NUL], 1)"
  using assms
  by (auto simp: powerdns_get_data_dgram_def Let_def split: if_splits option.splits)

lemma dgram_status:
  assumes "powerdns_get_data_dgram h g y item = Some (evs, st, out)"
  shows "(st = 0 \<and> out \<noteq> None) \<or> (st = - 1 \<and> out = None)"
  using assms
  by (auto simp: powerdns_get_data_dgram_def Let_def split: if_splits option.splits)

lemma dgram_shape:
  assumes "0 \<le> sys_socket y"
    and "\<not> (fst (sys_unlink y) \<noteq> 0 \<and> snd (sys_unlink y) \<noteq> ENOENT)"
    and "dgram_block y item (sa_unix_sun_path h g) = Some (mid, st, temp)"
  shows "\<exists>rest st' out.
           powerdns_get_data_dgram h g y item
             = Some ([SysSocket, SysUnlink (sa_unix_sun_path h g)] @ mid
                       @ [SysClose, SysUnlink (sa_unix_sun_path h g)] @ rest, st', out)
         \<and> (rest = [] \<or> rest = [LogError ''malloc''])"
  using assms by (auto simp: powerdns_get_data_dgram_def Let_def)

text \<open>
  C5, as the code has it. When \<open>socket\<close> succeeds and \<open>recv\<close>, if it is called,
  returns, the strategy returns, and it has called \<open>unlink\<close> on its local bind path
  twice, once before \<open>bind\<close> and once right after \<open>close\<close>, whichever of \<open>bind\<close>,
  \<open>chmod\<close>, \<open>connect\<close>, \<open>send\<close>, \<open>recv\<close> and \<open>malloc\<close> fails; only when the first
  \<open>unlink\<close> fails with an error other than \<open>ENOENT\<close> it has called it once, and
  then it returns \<open>-1\<close> with no output written. In every case the status is \<open>0\<close>
  with the output written, or \<open>-1\<close> with none.
\<close>

theorem dgram_unlink_attempts:
  assumes "0 \<le> sys_socket y" and "sys_recv y \<noteq> []"
  shows "\<exists>evs st out.
           powerdns_get_data_dgram (h :: 'g host) g y item = Some (evs, st, out)
         \<and> filter is_SysUnlink evs =
             (if fst (sys_unlink y) \<noteq> 0 \<and> snd (sys_unlink y) \<noteq> ENOENT
              then [SysUnlink (sa_unix_sun_path h g)]
              else [SysUnlink (sa_unix_sun_path h g), SysUnlink (sa_unix_sun_path h g)])
         \<and> (if fst (sys_unlink y) \<noteq> 0 \<and> snd (sys_unlink y) \<noteq> ENOENT
              then evs = [SysSocket, SysUnlink (sa_unix_sun_path h g), LogError ''unlink'', SysClose]
                   \<and> st = - 1 \<and> out = None
              else \<exists>mid rest. evs = [SysSocket, SysUnlink (sa_unix_sun_path h g)] @ mid
                                     @ [SysClose, SysUnlink (sa_unix_sun_path h g)] @ rest
                     \<and> filter is_SysUnlink mid = [] \<and> filter is_SysUnlink rest = [])
         \<and> ((st = 0 \<and> out \<noteq> None) \<or> (st = - 1 \<and> out = None))"
proof (cases "fst (sys_unlink y) \<noteq> 0 \<and> snd (sys_unlink y) \<noteq> ENOENT")
  case True
  with assms(1) show ?thesis
    by (simp add: powerdns_get_data_dgram_def Let_def)
next
  case False
  let ?p = "sa_unix_sun_path h g"
  from dgram_block_returns [OF assms(2)] obtain mid :: "'g event list" and st temp
    where b: "dgram_block y item ?p = Some (mid, st, temp)"
    by blast
  note clean = dgram_block_no_unlink [OF b]
  from dgram_shape [OF assms(1) False b] obtain rest st' out
    where r: "powerdns_get_data_dgram h g y item
                = Some ([SysSocket, SysUnlink ?p] @ mid @ [SysClose, SysUnlink ?p] @ rest, st', out)"
      and rest: "rest = [] \<or> rest = [LogError ''malloc'']"
    by blast
  from rest have rest_clean: "filter is_SysUnlink rest = []" by auto
  have count: "filter is_SysUnlink ([SysSocket, SysUnlink ?p] @ mid @ [SysClose, SysUnlink ?p] @ rest)
          = [SysUnlink ?p, SysUnlink ?p]"
    by (simp add: clean rest_clean)
  have shape: "\<exists>m r. [SysSocket, SysUnlink ?p] @ mid @ [SysClose, SysUnlink ?p] @ rest
                    = [SysSocket, SysUnlink ?p] @ m @ [SysClose, SysUnlink ?p] @ r
                 \<and> filter is_SysUnlink m = [] \<and> filter is_SysUnlink r = []"
    using clean rest_clean by blast
  show ?thesis
  proof (intro exI conjI)
    show "powerdns_get_data_dgram h g y item
            = Some ([SysSocket, SysUnlink ?p] @ mid @ [SysClose, SysUnlink ?p] @ rest, st', out)"
      by (rule r)
    show "filter is_SysUnlink ([SysSocket, SysUnlink ?p] @ mid @ [SysClose, SysUnlink ?p] @ rest)
            = (if fst (sys_unlink y) \<noteq> 0 \<and> snd (sys_unlink y) \<noteq> ENOENT
               then [SysUnlink ?p] else [SysUnlink ?p, SysUnlink ?p])"
      using False count by (simp only: if_False)
    show "(st' = 0 \<and> out \<noteq> None) \<or> (st' = - 1 \<and> out = None)"
      by (rule dgram_status [OF r])
    show "if fst (sys_unlink y) \<noteq> 0 \<and> snd (sys_unlink y) \<noteq> ENOENT
          then [SysSocket, SysUnlink ?p] @ mid @ [SysClose, SysUnlink ?p] @ rest
                 = [SysSocket, SysUnlink ?p, LogError ''unlink'', SysClose]
               \<and> st' = - 1 \<and> out = None
          else \<exists>m r. [SysSocket, SysUnlink ?p] @ mid @ [SysClose, SysUnlink ?p] @ rest
                        = [SysSocket, SysUnlink ?p] @ m @ [SysClose, SysUnlink ?p] @ r
                     \<and> filter is_SysUnlink m = [] \<and> filter is_SysUnlink r = []"
      using False shape by (simp only: if_False)
  qed
qed

theorem dgram_unlink_attempts_witness:
  "0 \<le> sys_socket ((sys_ok [RecvBytes ''17'']) \<lparr> sys_connect := - 1 \<rparr>)
   \<and> (\<exists>evs out.
         powerdns_get_data_dgram example_host no_globals
            ((sys_ok [RecvBytes ''17'']) \<lparr> sys_connect := - 1 \<rparr>) example_recursor
           = Some (evs, - 1, out)
       \<and> filter is_SysUnlink evs
           = [SysUnlink ''/var/run/collectd-powerdns'', SysUnlink ''/var/run/collectd-powerdns''])
   \<and> sys_unlink ((sys_ok [RecvBytes ''17'']) \<lparr> sys_unlink := (- 1, EOTHER) \<rparr>) = (- 1, EOTHER)
   \<and> powerdns_get_data_dgram example_host no_globals
        ((sys_ok [RecvBytes ''17'']) \<lparr> sys_unlink := (- 1, EOTHER) \<rparr>) example_recursor
       = Some ([SysSocket, SysUnlink ''/var/run/collectd-powerdns'', LogError ''unlink'',
                SysClose], - 1, None)"
proof -
  let ?y = "(sys_ok [RecvBytes ''17'']) \<lparr> sys_connect := - 1 \<rparr>"
  let ?z = "(sys_ok [RecvBytes ''17'']) \<lparr> sys_unlink := (- 1, EOTHER) \<rparr>"
  have a: "0 \<le> sys_socket ?y" by (simp add: sys_ok_def)
  have b: "sys_recv ?y \<noteq> []" by (simp add: sys_ok_def)
  have c: "\<not> (fst (sys_unlink ?y) \<noteq> 0 \<and> snd (sys_unlink ?y) \<noteq> ENOENT)"
    by (simp add: sys_ok_def)
  have p: "sa_unix_sun_path example_host no_globals = ''/var/run/collectd-powerdns''"
    by (simp add: sa_unix_sun_path_def example_host_def no_globals_def)
  from dgram_unlink_attempts [OF a b, of example_host no_globals example_recursor]
  obtain evs :: "int event list" and st out where
    r: "powerdns_get_data_dgram example_host no_globals ?y example_recursor = Some (evs, st, out)"
    and u: "filter is_SysUnlink evs =
             (if fst (sys_unlink ?y) \<noteq> 0 \<and> snd (sys_unlink ?y) \<noteq> ENOENT
              then [SysUnlink (sa_unix_sun_path example_host no_globals)]
              else [SysUnlink (sa_unix_sun_path example_host no_globals),
                    SysUnlink (sa_unix_sun_path example_host no_globals)])"
    by (elim exE conjE)
  have st: "st = - 1"
    using r by (simp add: powerdns_get_data_dgram_def dgram_block_def Let_def sys_ok_def
                  split: if_splits)
  from u c have u': "filter is_SysUnlink evs
      = [SysUnlink ''/var/run/collectd-powerdns'', SysUnlink ''/var/run/collectd-powerdns'']"
    by (simp only: if_False p)
  have first: "\<exists>evs out.
         powerdns_get_data_dgram example_host no_globals ?y example_recursor
           = Some (evs :: int event list, - 1, out)
       \<and> filter is_SysUnlink evs
           = [SysUnlink ''/var/run/collectd-powerdns'', SysUnlink ''/var/run/collectd-powerdns'']"
    using r st u' by blast
  have a': "0 \<le> sys_socket ?z" by (simp add: sys_ok_def)
  have b': "sys_recv ?z \<noteq> []" by (simp add: sys_ok_def)
  have c': "sys_unlink ?z = (- 1, EOTHER)" by (simp add: sys_ok_def)
  then have c'': "fst (sys_unlink ?z) \<noteq> 0 \<and> snd (sys_unlink ?z) \<noteq> ENOENT" by simp
  from dgram_unlink_attempts [OF a' b', of example_host no_globals example_recursor]
  obtain evs2 :: "int event list" and st2 out2 where
    r2: "powerdns_get_data_dgram example_host no_globals ?z example_recursor
           = Some (evs2, st2, out2)"
    and x2: "if fst (sys_unlink ?z) \<noteq> 0 \<and> snd (sys_unlink ?z) \<noteq> ENOENT
              then evs2 = [SysSocket, SysUnlink (sa_unix_sun_path example_host no_globals),
                           LogError ''unlink'', SysClose]
                   \<and> st2 = - 1 \<and> out2 = None
              else \<exists>mid rest. evs2 = [SysSocket, SysUnlink (sa_unix_sun_path example_host no_globals)] @ mid
                                     @ [SysClose, SysUnlink (sa_unix_sun_path example_host no_globals)] @ rest
                     \<and> filter is_SysUnlink mid = [] \<and> filter is_SysUnlink rest = []"
    by (elim exE conjE)
  from x2 c'' have "evs2 = [SysSocket, SysUnlink ''/var/run/collectd-powerdns'',
                           LogError ''unlink'', SysClose] \<and> st2 = - 1 \<and> out2 = None"
    by (simp add: p)
  with r2 have second: "powerdns_get_data_dgram example_host no_globals ?z example_recursor
       = Some ([SysSocket, SysUnlink ''/var/run/collectd-powerdns'', LogError ''unlink'',
                SysClose], - 1, None)"
    by simp
  from a first c' second show ?thesis by (intro conjI)
qed

text \<open>
  C5 as stated fails where every call succeeds: the strategy returns \<open>0\<close> and has called
  \<open>unlink\<close> twice.
\<close>

theorem dgram_unlinks_once_counterexample:
  "map_option (\<lambda>(evs, st, out). (st, length (filter is_SysUnlink evs)))
     (powerdns_get_data_dgram example_host no_globals (sys_ok [RecvBytes ''17''])
        example_recursor)
   = Some (0, 2)"
  by (simp add: powerdns_get_data_dgram_def dgram_block_def sa_unix_sun_path_def Let_def
        example_host_def no_globals_def sys_ok_def example_recursor_def)

subsection \<open>The stream strategy\<close>

lemma drop_replicate_last: "drop n (x # replicate n x) = [x]"
  by (induction n) auto

lemma take_replicate_more: "take k (x # replicate (n + k) x) = replicate k x"
  by (induction k) auto

lemma append_chunk:
  assumes "temp \<noteq> []"
  shows "(memcpy (realloc y (buffer_of acc) (length acc + length temp + 1))
            (length acc) temp (length temp))[length acc + length temp := NUL]
         = (acc @ temp) @ [NUL]"
proof (cases "acc = []")
  case True
  then show ?thesis
    by (simp add: buffer_of_def realloc_def memcpy_def drop_replicate_last list_update_append)
next
  case False
  from assms obtain k where k: "length temp = Suc k" by (cases temp) auto
  have "realloc y (buffer_of acc) (length acc + length temp + 1)
          = acc @ NUL # replicate (length temp) (junk y)"
    using False by (simp add: buffer_of_def realloc_def take_replicate_more)
  then show ?thesis
    by (simp add: memcpy_def k list_update_append drop_replicate_last)
qed

lemma stream_loop_success:
  assumes "allocs_ok y acc chunks" and "[] \<notin> set chunks"
  shows "\<exists>evs :: 'g event list.
           stream_loop y (map RecvBytes chunks @ RecvBytes [] # rest)
                  (buffer_of acc) (length acc)
               = Some (evs, 0, buffer_of (acc @ concat chunks), length (acc @ concat chunks))"
  using assms
proof (induction chunks arbitrary: acc)
  case Nil
  then show ?case by simp
next
  case (Cons c cs)
  from Cons.prems have c: "c \<noteq> []" and ok: "alloc_ok y (length acc + length c + 1)"
    and rest_ok: "allocs_ok y (acc @ c) cs" and cs: "[] \<notin> set cs"
    by auto
  from Cons.IH [OF rest_ok cs] obtain evs :: "'g event list" where
    "stream_loop y (map RecvBytes cs @ RecvBytes [] # rest) (buffer_of (acc @ c)) (length (acc @ c))
       = Some (evs, 0, buffer_of ((acc @ c) @ concat cs), length ((acc @ c) @ concat cs))"
    by blast
  moreover have "buffer_of (acc @ c) = Some ((acc @ c) @ [NUL])"
    using c by (simp add: buffer_of_def)
  ultimately show ?case
    using c ok append_chunk [OF c, of y acc] by (simp add: Let_def)
qed

lemma stream_loop_zero:
  assumes "stream_loop y rs (buffer_of acc) (length acc) = Some (evs :: 'g event list, 0, b, n)"
  shows "\<exists>chunks rest. rs = map RecvBytes chunks @ RecvBytes [] # rest \<and> [] \<notin> set chunks
           \<and> allocs_ok y acc chunks
           \<and> b = buffer_of (acc @ concat chunks) \<and> n = length (acc @ concat chunks)"
  using assms
proof (induction rs arbitrary: acc evs)
  case Nil
  then show ?case by simp
next
  case (Cons r rs)
  show ?case
  proof (cases r)
    case RecvError
    with Cons.prems show ?thesis by simp
  next
    case (RecvBytes temp)
    show ?thesis
    proof (cases "temp = []")
      case True
      with Cons.prems RecvBytes have "b = buffer_of acc" and "n = length acc" by simp_all
      with True RecvBytes have "r # rs = map RecvBytes [] @ RecvBytes [] # rs \<and> [] \<notin> set []
           \<and> allocs_ok y acc []
           \<and> b = buffer_of (acc @ concat []) \<and> n = length (acc @ concat [])"
        by simp
      then show ?thesis by blast
    next
      case False
      have bo: "buffer_of (acc @ temp) = Some ((acc @ temp) @ [NUL])"
        using False by (simp add: buffer_of_def)
      from Cons.prems RecvBytes False
      have ok: "alloc_ok y (length acc + length temp + 1)"
        by (auto simp: Let_def split: if_splits)
      with Cons.prems RecvBytes False append_chunk [OF False, of y acc] bo
      obtain evs' :: "'g event list" where
        "stream_loop y rs (buffer_of (acc @ temp)) (length (acc @ temp)) = Some (evs', 0, b, n)"
        by (auto simp: Let_def split: option.splits)
      from Cons.IH [OF this] obtain chunks rest where
        rs: "rs = map RecvBytes chunks @ RecvBytes [] # rest" and ne: "[] \<notin> set chunks"
        and al: "allocs_ok y (acc @ temp) chunks"
        and b: "b = buffer_of ((acc @ temp) @ concat chunks)"
        and n: "n = length ((acc @ temp) @ concat chunks)"
        by blast
      have "r # rs = map RecvBytes (temp # chunks) @ RecvBytes [] # rest
           \<and> [] \<notin> set (temp # chunks) \<and> allocs_ok y acc (temp # chunks)
           \<and> b = buffer_of (acc @ concat (temp # chunks))
           \<and> n = length (acc @ concat (temp # chunks))"
        using rs ne al b n RecvBytes False ok by simp
      then show ?thesis by blast
    qed
  qed
qed

lemma stream_loop_status:
  "stream_loop y rs b n = Some (evs :: 'g event list, st, b', n') \<Longrightarrow> st = 0 \<or> st = - 1"
proof (induction rs arbitrary: b n evs)
  case Nil
  then show ?case by simp
next
  case (Cons r rs)
  show ?case
  proof (cases r)
    case RecvError
    with Cons.prems show ?thesis by simp
  next
    case (RecvBytes temp)
    with Cons.prems show ?thesis
      by (auto simp: Let_def split: if_splits option.splits dest: Cons.IH)
  qed
qed

lemma buffer_of_Nil: "buffer_of [] = None"
  by (simp add: buffer_of_def)

text \<open>
  What the stream strategy returns. It returns \<open>0\<close> exactly when \<open>socket\<close>,
  \<open>connect\<close> and \<open>send\<close> succeed, \<open>recv\<close> returns chunks, then \<open>0\<close>, and every
  \<open>realloc\<close> succeeds; the size it gives is the number of the bytes of all chunks, and
  the buffer is those bytes in order with a NUL behind them, except that after no chunk
  at all the buffer is the \<open>NULL\<close> pointer. A status other than \<open>0\<close> is \<open>-1\<close>, and then
  the output parameters are not written.
\<close>

theorem stream_reply_is_concatenation:
  "((\<exists>evs :: 'g event list. powerdns_get_data_stream y item = Some (evs, 0, out)) \<longleftrightarrow>
      0 \<le> sys_socket y \<and> sys_connect y = 0 \<and> 0 \<le> sys_send y
      \<and> (\<exists>chunks rest. sys_recv y = map RecvBytes chunks @ RecvBytes [] # rest
            \<and> [] \<notin> set chunks \<and> allocs_ok y [] chunks
            \<and> out = Some (buffer_of (concat chunks), length (concat chunks))))
   \<and> (powerdns_get_data_stream y item = Some (evs' :: 'g event list, st, out') \<longrightarrow>
         (st = 0 \<and> out' \<noteq> None) \<or> (st = - 1 \<and> out' = None))"
proof (rule conjI)
  let ?rhs = "0 \<le> sys_socket y \<and> sys_connect y = 0 \<and> 0 \<le> sys_send y
      \<and> (\<exists>chunks rest. sys_recv y = map RecvBytes chunks @ RecvBytes [] # rest
            \<and> [] \<notin> set chunks \<and> allocs_ok y [] chunks
            \<and> out = Some (buffer_of (concat chunks), length (concat chunks)))"
  show "(\<exists>evs :: 'g event list. powerdns_get_data_stream y item = Some (evs, 0, out)) \<longleftrightarrow> ?rhs"
  proof (rule iffI)
    assume "\<exists>evs :: 'g event list. powerdns_get_data_stream y item = Some (evs, 0, out)"
    then obtain evs :: "'g event list"
      where r: "powerdns_get_data_stream y item = Some (evs, 0, out)" ..
    then have calls: "0 \<le> sys_socket y \<and> sys_connect y = 0 \<and> 0 \<le> sys_send y"
      by (auto simp: powerdns_get_data_stream_def split: if_splits)
    with r obtain le :: "'g event list" and b n where
      loop: "stream_loop y (sys_recv y) (buffer_of []) (length ([] :: char list))
               = Some (le, 0, b, n)"
      and out: "out = Some (b, n)"
      by (auto simp: powerdns_get_data_stream_def buffer_of_Nil split: if_splits option.splits)
    from stream_loop_zero [OF loop] out calls show ?rhs by auto
  next
    assume a: ?rhs
    then obtain chunks rest where
      rs: "sys_recv y = map RecvBytes chunks @ RecvBytes [] # rest" and ne: "[] \<notin> set chunks"
      and al: "allocs_ok y [] chunks"
      and out: "out = Some (buffer_of (concat chunks), length (concat chunks))"
      by blast
    from stream_loop_success [OF al ne, of rest] obtain le :: "'g event list" where
      "stream_loop y (sys_recv y) None 0
         = Some (le, 0, buffer_of (concat chunks), length (concat chunks))"
      by (auto simp: rs buffer_of_Nil)
    with a out
    show "\<exists>evs :: 'g event list. powerdns_get_data_stream y item = Some (evs, 0, out)"
      by (simp add: powerdns_get_data_stream_def)
  qed
  show "powerdns_get_data_stream y item = Some (evs' :: 'g event list, st, out') \<longrightarrow>
         (st = 0 \<and> out' \<noteq> None) \<or> (st = - 1 \<and> out' = None)"
  proof (rule impI)
    assume "powerdns_get_data_stream y item = Some (evs', st, out')"
    then show "(st = 0 \<and> out' \<noteq> None) \<or> (st = - 1 \<and> out' = None)"
      by (auto simp: powerdns_get_data_stream_def split: if_splits option.splits
            dest: stream_loop_status)
  qed
qed

theorem stream_reply_is_concatenation_witness:
  "map length example_chunks = [10, 4090, 1]
   \<and> (\<exists>evs :: int event list.
         powerdns_get_data_stream (sys_ok (map RecvBytes example_chunks @ [RecvBytes []]))
           example_server
         = Some (evs, 0, Some (Some (concat example_chunks @ [NUL]), 4101)))
   \<and> powerdns_get_data_stream sys_no_socket example_server
       = Some ([SysSocket, LogError ''socket''] :: int event list, - 1, None)"
proof -
  have failing: "powerdns_get_data_stream sys_no_socket example_server
       = Some ([SysSocket, LogError ''socket''] :: int event list, - 1, None)"
    by (simp add: powerdns_get_data_stream_def sys_no_socket_def sys_ok_def)
  let ?y = "sys_ok (map RecvBytes example_chunks @ [RecvBytes []])"
  have len: "map length example_chunks = [10, 4090, 1]"
    by (simp add: example_chunks_def)
  have total: "length (concat example_chunks) = 4101"
    by (simp add: example_chunks_def)
  have ne: "concat example_chunks \<noteq> []"
    by (simp add: example_chunks_def)
  have al: "allocs_ok ?y acc cs" for acc cs
    by (induction cs arbitrary: acc) (simp_all add: sys_ok_def)
  have "0 \<le> sys_socket ?y \<and> sys_connect ?y = 0 \<and> 0 \<le> sys_send ?y
      \<and> (\<exists>chunks rest. sys_recv ?y = map RecvBytes chunks @ RecvBytes [] # rest
            \<and> [] \<notin> set chunks \<and> allocs_ok ?y [] chunks
            \<and> Some (Some (concat example_chunks @ [NUL]), 4101)
                = Some (buffer_of (concat chunks), length (concat chunks)))"
  proof (intro conjI exI [of _ example_chunks] exI [of _ "[]"])
    show "[] \<notin> set example_chunks" by (simp add: example_chunks_def)
    show "Some (Some (concat example_chunks @ [NUL]), 4101)
            = Some (buffer_of (concat example_chunks), length (concat example_chunks))"
      using ne total by (simp add: buffer_of_def)
    show "allocs_ok ?y [] example_chunks" by (rule al)
  qed (simp_all add: sys_ok_def)
  from stream_reply_is_concatenation [THEN conjunct1, THEN iffD2, OF this]
  have "\<exists>evs :: int event list.
         powerdns_get_data_stream ?y example_server
         = Some (evs, 0, Some (Some (concat example_chunks @ [NUL]), 4101))" .
  with len failing show ?thesis by (intro conjI)
qed

text \<open>
  C6. The peer closes without sending: every call succeeds and the first \<open>recv\<close> returns
  \<open>0\<close>. The stream strategy returns \<open>0\<close> with the size \<open>0\<close>, and the buffer it gives is
  the \<open>NULL\<close> pointer, not a buffer that holds a NUL. Its caller \<open>powerdns_read_server\<close>
  then hands that pointer to \<open>strtok_r\<close> and does not return.
\<close>

theorem stream_empty_reply_returns_null:
  "powerdns_get_data_stream (sys_ok [RecvBytes []]) example_server
     = Some ([SysSocket, SysConnect ''/var/run/pdns.controlsocket'', SysSend (''SHOW *'' @ [NUL]),
              SysRecv, SysClose] :: int event list,
             0, Some (None, 0))
   \<and> powerdns_read_server example_host no_globals (sys_ok [RecvBytes []]) example_server = None"
  by (simp add: powerdns_read_server_def powerdns_get_data_def powerdns_get_data_stream_def
        sys_ok_def example_server_def SERVER_SOCKET_def SERVER_COMMAND_def)

subsection \<open>Configuration\<close>

lemma config_option_LocalSocket:
  assumes "strcasecmp_eq ''LocalSocket'' (ci_key option)" and "strdup_ok m (ci_key option)"
    and "config_option m h option lst lsp = Some (evs, returns, lst', lsp')"
  shows "lsp' = Some (ci_key option)"
  using assms
  by (auto simp: config_option_def strdup_def split: if_splits option.splits)

text \<open>
  C2. The plugin's block holds the one option \<open>LocalSocket "/var/run/pdns-local.sock"\<close>.
  After \<open>powerdns_config\<close> the variable \<open>local_sockpath\<close> is the option's key,
  \<open>LocalSocket\<close>, and that is the path the datagram strategy binds to.
\<close>

theorem local_socket_is_set_to_the_key:
  "powerdns_config heap_ok example_host
     (OConfigItem ''Plugin'' [OCONFIG_TYPE_STRING ''powerdns'']
        [OConfigItem ''LocalSocket'' [OCONFIG_TYPE_STRING ''/var/run/pdns-local.sock''] []])
     no_globals
   = Some ([], 0, \<lparr> list = Some [], local_sockpath = Some ''LocalSocket'' \<rparr>)
   \<and> sa_unix_sun_path example_host \<lparr> list = Some [], local_sockpath = Some ''LocalSocket'' \<rparr>
       = ''LocalSocket''"
  by (simp add: powerdns_config_def config_option_def strcasecmp_eq_def tolower_def
        strdup_def heap_ok_def no_globals_def sa_unix_sun_path_def example_host_def
        llist_entries_def)

subsection \<open>The read callback\<close>

lemma read_loop_all:
  assumes "\<forall>j < length items. call_func h g (world (k + j)) (items ! j) \<noteq> None"
  shows "\<exists>calls. read_loop h g world k items = Some calls \<and> map fst calls = items
           \<and> (\<forall>j < length items.
                 call_func h g (world (k + j)) (items ! j)
                   = Some (snd (snd (calls ! j)), fst (snd (calls ! j))))"
  using assms
proof (induction items arbitrary: k)
  case Nil
  then show ?case by simp
next
  case (Cons item rest)
  from Cons.prems [rule_format, of 0] obtain evs st
    where first: "call_func h g (world k) item = Some (evs, st)" by auto
  have "\<forall>j < length rest. call_func h g (world (Suc k + j)) (rest ! j) \<noteq> None"
    using Cons.prems [rule_format, of "Suc j" for j] by simp
  from Cons.IH [OF this] obtain calls where
    calls: "read_loop h g world (Suc k) rest = Some calls" and items: "map fst calls = rest"
    and each: "\<forall>j < length rest.
                 call_func h g (world (Suc k + j)) (rest ! j)
                   = Some (snd (snd (calls ! j)), fst (snd (calls ! j)))"
    by blast
  have "\<forall>j < length (item # rest).
          call_func h g (world (k + j)) ((item # rest) ! j)
            = Some (snd (snd (((item, st, evs) # calls) ! j)),
                    fst (snd (((item, st, evs) # calls) ! j)))"
  proof (intro allI impI)
    fix j assume "j < length (item # rest)"
    then show "call_func h g (world (k + j)) ((item # rest) ! j)
            = Some (snd (snd (((item, st, evs) # calls) ! j)),
                    fst (snd (((item, st, evs) # calls) ! j)))"
      using first each by (cases j) auto
  qed
  with first calls items show ?case by simp
qed

lemma register_item_appends:
  "register_item m h f label st cmd socket_temp lst = (evs, 0, lst') \<Longrightarrow>
     \<exists>item. lst' = lst @ [item]"
  by (auto simp: register_item_def llist_append_def split: option.splits if_splits)

lemma add_server_appends:
  assumes "powerdns_config_add_server m h ci lst = Some (evs, 0, lst')"
  shows "\<exists>item. lst' = lst @ [item]"
proof -
  from assms obtain q :: "'a event list \<times> int \<times> list_item list"
    and f label st cmd socket_temp
    where q: "q = register_item m h f label st cmd socket_temp lst"
      and z: "fst (snd q) = 0" and l: "lst' = snd (snd q)"
    by (auto simp: powerdns_config_add_server_def Let_def
          split: option.splits if_splits prod.splits)
  from q z have "register_item m h f label st cmd socket_temp lst = (fst q, 0, snd (snd q))"
    by (metis prod.collapse)
  from register_item_appends [OF this] l show ?thesis by simp
qed

text \<open>
  A sweep in which every collection function returns. When each of them returns (with
  \<open>0\<close> or with \<open>-1\<close>), \<open>powerdns_read\<close> returns \<open>0\<close> and has called the function of every target of
  the registry once, in the order of the registry, each with the outcome it has on its
  own; and a target that \<open>powerdns_config_add_server\<close> registers goes to the end of the
  registry.
\<close>

theorem powerdns_read_polls_every_target:
  assumes "list g = Some items"
    and "\<forall>k < length items. call_func h g (world k) (items ! k) \<noteq> None"
  shows "(\<exists>calls. powerdns_read h g world = Some (calls, 0) \<and> map fst calls = items
           \<and> (\<forall>k < length items.
                 call_func h g (world k) (items ! k)
                   = Some (snd (snd (calls ! k)), fst (snd (calls ! k)))))
       \<and> (powerdns_config_add_server m h ci lst = Some (evs, 0, lst') \<longrightarrow>
            (\<exists>item. lst' = lst @ [item]))"
proof -
  from assms(2) have "\<forall>j < length items. call_func h g (world (0 + j)) (items ! j) \<noteq> None"
    by simp
  from read_loop_all [OF this] assms(1)
  have "\<exists>calls. powerdns_read h g world = Some (calls, 0) \<and> map fst calls = items
           \<and> (\<forall>k < length items.
                 call_func h g (world k) (items ! k)
                   = Some (snd (snd (calls ! k)), fst (snd (calls ! k))))"
    by (auto simp: powerdns_read_def llist_entries_def)
  then show ?thesis using add_server_appends by blast
qed

theorem powerdns_read_polls_every_target_witness:
  "list two_targets = Some [example_recursor, example_server]
   \<and> call_func example_host two_targets (failing_then_fine 0) example_recursor
       = Some ([SysSocket, LogError ''socket''], - 1)
   \<and> (\<exists>calls. powerdns_read example_host two_targets failing_then_fine = Some (calls, 0)
         \<and> map fst calls = [example_recursor, example_server]
         \<and> map (\<lambda>c. fst (snd c)) calls = [- 1, 0])
   \<and> powerdns_config_add_server heap_ok example_host
         (OConfigItem ''Server'' [OCONFIG_TYPE_STRING ''ns1''] []) [example_recursor]
       = Some ([LogDebug ''Add server''], 0, [example_recursor] @ [example_server])"
proof -
  have reg: "powerdns_config_add_server heap_ok example_host
         (OConfigItem ''Server'' [OCONFIG_TYPE_STRING ''ns1''] []) [example_recursor]
       = Some ([LogDebug ''Add server''], 0, [example_recursor] @ [example_server])"
    by (simp add: powerdns_config_add_server_def one_string_def heap_ok_def strdup_def
          item_defaults_def strcasecmp_eq_def tolower_def register_item_def Let_def
          example_server_def llist_append_def example_host_def SERVER_SOCKET_def)
  have l: "list two_targets = Some [example_recursor, example_server]"
    by (simp add: two_targets_def)
  have c0: "call_func example_host two_targets (failing_then_fine 0) example_recursor
              = Some ([SysSocket, LogError ''socket''], - 1)"
    by (simp add: call_func_def example_recursor_def powerdns_read_recursor_def
          powerdns_get_data_def powerdns_get_data_dgram_def failing_then_fine_def
          sys_no_socket_def sys_ok_def)
  have c1: "\<exists>evs. call_func example_host two_targets (failing_then_fine 1) example_server
              = Some (evs, 0)"
    by (simp add: call_func_def example_server_def powerdns_read_server_def
          powerdns_get_data_def powerdns_get_data_stream_def failing_then_fine_def
          sys_ok_def Let_def)
  have all: "\<forall>k < length [example_recursor, example_server].
               call_func example_host two_targets (failing_then_fine k)
                 ([example_recursor, example_server] ! k) \<noteq> None"
    using c0 c1 by (auto simp: less_Suc_eq)
  from powerdns_read_polls_every_target [OF l all, THEN conjunct1] obtain calls where
    x: "powerdns_read example_host two_targets failing_then_fine = Some (calls, 0)
        \<and> map fst calls = [example_recursor, example_server]
        \<and> (\<forall>k < length [example_recursor, example_server].
              call_func example_host two_targets (failing_then_fine k)
                ([example_recursor, example_server] ! k)
                = Some (snd (snd (calls ! k)), fst (snd (calls ! k))))" ..
  from x have r: "powerdns_read example_host two_targets failing_then_fine = Some (calls, 0)"
    by (rule conjunct1)
  from x have m: "map fst calls = [example_recursor, example_server]"
    by (rule conjunct2 [THEN conjunct1])
  from x have e: "\<forall>k < length [example_recursor, example_server].
              call_func example_host two_targets (failing_then_fine k)
                ([example_recursor, example_server] ! k)
                = Some (snd (snd (calls ! k)), fst (snd (calls ! k)))"
    by (rule conjunct2 [THEN conjunct2])
  from e [rule_format, of 0] c0 have s0: "fst (snd (calls ! 0)) = - 1" by simp
  from e [rule_format, of 1] c1 have s1: "fst (snd (calls ! 1)) = 0" by auto
  from m obtain a b where ab: "calls = [a, b]"
    by (auto simp: map_eq_Cons_conv)
  with s0 s1 have st: "map (\<lambda>c. fst (snd c)) calls = [- 1, 0]" by simp
  from l c0 r m st reg show ?thesis by (intro conjI exI [of _ calls])
qed

text \<open>
  C10. The registry holds a server and then a recursor. In the sweep every system call
  returns; the server's peer closes without sending. The transport of the first target
  returns \<open>0\<close> with the \<open>NULL\<close> buffer, \<open>powerdns_read_server\<close> does not return from
  its \<open>strtok_r\<close>, and so neither does \<open>powerdns_read\<close>: the second target is not
  polled, although its own collection would return \<open>0\<close>.
\<close>

theorem empty_stream_reply_ends_the_sweep:
  "list server_then_recursor = Some [example_server, example_recursor]
   \<and> powerdns_get_data example_host server_then_recursor (closes_then_fine 0) example_server
       = Some ([SysSocket, SysConnect SERVER_SOCKET, SysSend (SERVER_COMMAND @ [NUL]),
                SysRecv, SysClose], 0, Some (None, 0))
   \<and> call_func example_host server_then_recursor (closes_then_fine 0) example_server = None
   \<and> call_func example_host server_then_recursor (closes_then_fine 1) example_recursor
       = Some ([SysSocket, SysUnlink ''/var/run/collectd-powerdns'',
                SysBind ''/var/run/collectd-powerdns'', SysChmod ''/var/run/collectd-powerdns'',
                SysConnect RECURSOR_SOCKET, SysSend ''get questions'',
                SysRecv, SysClose, SysUnlink ''/var/run/collectd-powerdns''], 0)
   \<and> powerdns_read example_host server_then_recursor closes_then_fine = None"
proof -
  have g: "powerdns_get_data example_host server_then_recursor (closes_then_fine 0)
             example_server
       = Some ([SysSocket, SysConnect SERVER_SOCKET, SysSend (SERVER_COMMAND @ [NUL]),
                SysRecv, SysClose], 0, Some (None, 0))"
    by (simp add: powerdns_get_data_def powerdns_get_data_stream_def closes_then_fine_def
          sys_ok_def example_server_def)
  then have c0: "call_func example_host server_then_recursor (closes_then_fine 0)
                   example_server = None"
    by (simp add: call_func_def powerdns_read_server_def example_server_def)
  have c1: "call_func example_host server_then_recursor (closes_then_fine 1) example_recursor
       = Some ([SysSocket, SysUnlink ''/var/run/collectd-powerdns'',
                SysBind ''/var/run/collectd-powerdns'', SysChmod ''/var/run/collectd-powerdns'',
                SysConnect RECURSOR_SOCKET, SysSend ''get questions'',
                SysRecv, SysClose, SysUnlink ''/var/run/collectd-powerdns''], 0)"
    by (simp add: call_func_def powerdns_read_recursor_def powerdns_get_data_def
          powerdns_get_data_dgram_def dgram_block_def sa_unix_sun_path_def Let_def
          example_host_def server_then_recursor_def closes_then_fine_def sys_ok_def
          example_recursor_def recursor_decode_tokens c_str_def tokens_def)
  have l: "list server_then_recursor = Some [example_server, example_recursor]"
    by (simp add: server_then_recursor_def)
  have r: "powerdns_read example_host server_then_recursor closes_then_fine = None"
    using c0 by (simp add: powerdns_read_def llist_entries_def l)
  from l g c0 c1 r show ?thesis by (intro conjI)
qed

end
